theory Spec2Isabelle
  imports Complex_Main
begin

section \<open>Outcomes of a call\<close>

text \<open>
  The exceptions that \<^verbatim>\<open>training_utils.py\<close> and the library calls it makes can raise.
  \<open>NameError\<close> and \<open>AttributeError\<close> carry the name that could not be resolved.
\<close>

datatype exn =
    NameError string
  | AttributeError string
  | IndexError
  | KeyError
  | TypeError
  | ValueError
  | ZeroDivisionError
  | RuntimeError

text \<open>
  A call either returns a value, raises, or goes on with a loss that is \<open>inf\<close> or \<open>nan\<close>:
  the loss of a batch is a number of the caller's criterion, taken as a real number, so
  \<open>Nonfinite\<close> records that the loss tensor was divided by zero (which does not raise) and
  says nothing more about the state.
\<close>

datatype 'a outcome = Returns 'a | Raises exn | Nonfinite

fun and_then :: "'a outcome \<Rightarrow> ('a \<Rightarrow> 'b outcome) \<Rightarrow> 'b outcome" where
  "and_then (Returns x) f = f x"
| "and_then (Raises e) f = Raises e"
| "and_then Nonfinite f = Nonfinite"

section \<open>Floating-point values\<close>

text \<open>
  A value of a floating-point format is a real number, an infinity or \<open>nan\<close> (the sign of
  a zero is not kept). The operations follow IEEE 754: on finite operands the exact result
  is rounded to the format, and the rounding may overflow to an infinity or underflow to
  zero; the infinities and \<open>nan\<close> follow the usual rules, and dividing by zero gives an
  infinity or \<open>nan\<close>. The rounding \<open>r\<close> of the format is an argument of every operation.
\<close>

datatype fp = Fin real | PInf | NInf | NaN

fun is_fin :: "fp \<Rightarrow> bool" where
  "is_fin (Fin x) = True"
| "is_fin v = False"

fun sign_of :: "fp \<Rightarrow> real" where
  "sign_of (Fin x) = sgn x"
| "sign_of PInf = 1"
| "sign_of NInf = - 1"
| "sign_of NaN = 0"

definition inf_of_sign :: "real \<Rightarrow> fp" where
  "inf_of_sign s = (if 0 < s then PInf else if s < 0 then NInf else NaN)"

text \<open>The conversion of a value to a format.\<close>

fun fl_round :: "(real \<Rightarrow> fp) \<Rightarrow> fp \<Rightarrow> fp" where
  "fl_round r (Fin x) = r x"
| "fl_round r v = v"

fun fl_mul :: "(real \<Rightarrow> fp) \<Rightarrow> fp \<Rightarrow> fp \<Rightarrow> fp" where
  "fl_mul r (Fin x) (Fin y) = r (x * y)"
| "fl_mul r NaN b = NaN"
| "fl_mul r a NaN = NaN"
| "fl_mul r a b = inf_of_sign (sign_of a * sign_of b)"

fun fl_add :: "(real \<Rightarrow> fp) \<Rightarrow> fp \<Rightarrow> fp \<Rightarrow> fp" where
  "fl_add r (Fin x) (Fin y) = r (x + y)"
| "fl_add r NaN b = NaN"
| "fl_add r a NaN = NaN"
| "fl_add r PInf NInf = NaN"
| "fl_add r NInf PInf = NaN"
| "fl_add r PInf b = PInf"
| "fl_add r NInf b = NInf"
| "fl_add r a b = b"

fun fl_div :: "(real \<Rightarrow> fp) \<Rightarrow> fp \<Rightarrow> fp \<Rightarrow> fp" where
  "fl_div r (Fin x) (Fin y) = (if y = 0 then inf_of_sign (sgn x) else r (x / y))"
| "fl_div r NaN b = NaN"
| "fl_div r a NaN = NaN"
| "fl_div r (Fin x) b = Fin 0"
| "fl_div r a (Fin y) = inf_of_sign (sign_of a * (if y < 0 then - 1 else 1))"
| "fl_div r a b = NaN"

fun fl_sqrt :: "(real \<Rightarrow> fp) \<Rightarrow> fp \<Rightarrow> fp" where
  "fl_sqrt r (Fin x) = (if x < 0 then NaN else r (sqrt x))"
| "fl_sqrt r PInf = PInf"
| "fl_sqrt r v = NaN"

text \<open>
  The arithmetic of the platform is a parameter: the rounding to the dtype of the tensors,
  the rounding to double precision (Python floats and numpy \<open>float64\<close> scalars), and the two
  reductions, \<^verbatim>\<open>t.sum()\<close> of torch and \<^verbatim>\<open>sum(...)\<close> of Python, whose order of additions is
  the library's. Both reductions give 0 for nothing to add.
\<close>

record arith =
  round_tensor :: "real \<Rightarrow> fp"
  round_double :: "real \<Rightarrow> fp"
  tensor_sum :: "fp list \<Rightarrow> fp"
  py_sum :: "fp list \<Rightarrow> fp"

definition reduce_sum :: "(fp list \<Rightarrow> fp) \<Rightarrow> fp list \<Rightarrow> fp" where
  "reduce_sum f xs = (if xs = [] then Fin 0 else f xs)"

text \<open>
  A scalar is a Python float or a numpy \<open>float64\<close>. \<^verbatim>\<open>a / b\<close> on two Python floats raises
  \<open>ZeroDivisionError\<close> for a zero divisor; as soon as one operand is a numpy scalar the
  division is numpy's, which gives \<open>inf\<close> or \<open>nan\<close> (and a warning) and a numpy scalar.
\<close>

datatype scalar = PyFloat fp | NpFloat64 fp

fun value_of :: "scalar \<Rightarrow> fp" where
  "value_of (PyFloat v) = v"
| "value_of (NpFloat64 v) = v"

fun truediv :: "(real \<Rightarrow> fp) \<Rightarrow> scalar \<Rightarrow> scalar \<Rightarrow> scalar outcome" where
  "truediv r (PyFloat a) (PyFloat b) =
     (if b = Fin 0 then Raises ZeroDivisionError else Returns (PyFloat (fl_div r a b)))"
| "truediv r a b = Returns (NpFloat64 (fl_div r (value_of a) (value_of b)))"

section \<open>Tensors\<close>

text \<open>
  A tensor is its shape and its entries in row-major order. \<open>wf_tensor\<close> says that the
  number of entries fits the shape.
\<close>

record 'a tensor =
  shape :: "nat list"
  vals :: "'a list"

definition numel :: "'a tensor \<Rightarrow> nat" where
  "numel t = prod_list (shape t)"

definition wf_tensor :: "'a tensor \<Rightarrow> bool" where
  "wf_tensor t = (length (vals t) = numel t)"

text \<open>\<^verbatim>\<open>t.view(s)\<close> of a contiguous tensor: the entry counts must agree.\<close>

definition tensor_view :: "'a tensor \<Rightarrow> nat list \<Rightarrow> 'a tensor outcome" where
  "tensor_view t s =
     (if prod_list s = numel t then Returns \<lparr>shape = s, vals = vals t\<rparr>
      else Raises RuntimeError)"

text \<open>\<^verbatim>\<open>t.contiguous().view(-1, 1)\<close>, \<^verbatim>\<open>t.view(-1)\<close> and \<^verbatim>\<open>t.reshape(1, -1)\<close>:
  the free dimension is the entry count, so these never fail.\<close>

definition view_column :: "'a tensor \<Rightarrow> 'a tensor" where
  "view_column t = \<lparr>shape = [numel t, 1], vals = vals t\<rparr>"

definition view_flat :: "'a tensor \<Rightarrow> 'a tensor" where
  "view_flat t = \<lparr>shape = [numel t], vals = vals t\<rparr>"

definition reshape_row :: "'a tensor \<Rightarrow> 'a tensor" where
  "reshape_row t = \<lparr>shape = [1, numel t], vals = vals t\<rparr>"

text \<open>
  \<^verbatim>\<open>torch.cat(ts)\<close> along dimension 0: refuses an empty list and tensors whose shapes
  differ after the first dimension (or have none).
\<close>

definition torch_cat :: "'a tensor list \<Rightarrow> 'a tensor outcome" where
  "torch_cat ts =
     (case ts of
        [] \<Rightarrow> Raises RuntimeError
      | t # _ \<Rightarrow>
          if shape t \<noteq> [] \<and> (\<forall>u \<in> set ts. shape u \<noteq> [] \<and> tl (shape u) = tl (shape t))
          then Returns \<lparr>shape = sum_list (map (\<lambda>u. hd (shape u)) ts) # tl (shape t),
                         vals = concat (map vals ts)\<rparr>
          else Raises RuntimeError)"

text \<open>
  \<^verbatim>\<open>v[:, i:j]\<close> for \<open>0 \<le> i \<le> j\<close>: a slice of dimension 1, clamped to the tensor as Python
  slices are; a tensor of fewer than two dimensions has no dimension 1.
\<close>

definition slice_cols :: "'a tensor \<Rightarrow> nat \<Rightarrow> nat \<Rightarrow> 'a tensor outcome" where
  "slice_cols v i j =
     (case shape v of
        r # c # rest \<Rightarrow>
          (let b = prod_list rest;
               k = min j c - min i c
           in Returns \<lparr>shape = r # k # rest,
                       vals = concat (map (\<lambda>row. take (k * b) (drop (row * (c * b) + min i c * b) (vals v)))
                                          [0..<r])\<rparr>)
      | _ \<Rightarrow> Raises IndexError)"

section \<open>flatten and unflatten_like\<close>

text \<open>
  \<^verbatim>\<open>
  def flatten(lst):
      tmp = [i.contiguous().view(-1, 1) for i in lst]
      return torch.cat(tmp).view(-1)
  \<close>
\<close>

definition flatten :: "'a tensor list \<Rightarrow> 'a tensor outcome" where
  "flatten lst =
     (let tmp = map view_column lst
      in and_then (torch_cat tmp) (\<lambda>c. Returns (view_flat c)))"

text \<open>
  \<^verbatim>\<open>
  def unflatten_like(vector, likeTensorList):
      outList = []
      i = 0
      for tensor in likeTensorList:
          n = tensor.numel()
          outList.append(vector[:, i : i + n].view(tensor.shape))
          i += n
      return outList
  \<close>
  The loop carries \<open>i\<close> and \<open>outList\<close>. Every slice that passes the entry-count test of
  \<open>view\<close> is empty, a single row, or the whole of \<open>vector\<close>, so the strides never stand in
  the way of the view.
\<close>

fun unflatten_loop :: "'a tensor \<Rightarrow> nat \<Rightarrow> 'a tensor list \<Rightarrow> 'a tensor list \<Rightarrow> 'a tensor list outcome" where
  "unflatten_loop vector i [] outList = Returns outList"
| "unflatten_loop vector i (t # ts) outList =
     (let n = numel t
      in and_then (slice_cols vector i (i + n)) (\<lambda>sl.
         and_then (tensor_view sl (shape t)) (\<lambda>x.
         unflatten_loop vector (i + n) ts (outList @ [x]))))"

definition unflatten_like :: "'a tensor \<Rightarrow> 'a tensor list \<Rightarrow> 'a tensor list outcome" where
  "unflatten_like vector likeTensorList = unflatten_loop vector 0 likeTensorList []"

section \<open>Tensor arithmetic\<close>

text \<open>
  Multiplication of a tensor by a Python or numpy scalar: the scalar is converted to the
  dtype of the tensor and the products are rounded to it.
\<close>

definition scale :: "arith \<Rightarrow> fp \<Rightarrow> fp tensor \<Rightarrow> fp tensor" where
  "scale A c t =
     \<lparr>shape = shape t,
      vals = map (\<lambda>x. fl_mul (round_tensor A) x (fl_round (round_tensor A) c)) (vals t)\<rparr>"

text \<open>\<^verbatim>\<open>(t ** 2).sum().item()\<close>: the squares and their sum are the tensor's, \<^verbatim>\<open>item()\<close>
  converts the sum to a Python float without changing it.\<close>

definition sq_sum :: "arith \<Rightarrow> fp tensor \<Rightarrow> fp" where
  "sq_sum A t = reduce_sum (tensor_sum A) (map (\<lambda>x. fl_mul (round_tensor A) x x) (vals t))"

text \<open>Division of a tensor by a zero-dimensional tensor of its dtype.\<close>

definition div_scalar :: "arith \<Rightarrow> fp tensor \<Rightarrow> fp \<Rightarrow> fp tensor" where
  "div_scalar A t c = \<lparr>shape = shape t, vals = map (\<lambda>x. fl_div (round_tensor A) x c) (vals t)\<rparr>"

text \<open>
  Broadcasting, as torch does it for a binary operation: the shapes are aligned at their
  last dimensions, and two dimensions fit when they are equal or one of them is 1.
  \<open>broadcast_dims\<close> works on the reversed shapes; \<open>expand\<close> repeats the entries of a
  tensor along the dimensions where it has size 1.
\<close>

fun broadcast_dims :: "nat list \<Rightarrow> nat list \<Rightarrow> nat list option" where
  "broadcast_dims [] ys = Some ys"
| "broadcast_dims (x # xs) [] = Some (x # xs)"
| "broadcast_dims (x # xs) (y # ys) =
     (if x = y \<or> y = 1 then map_option ((#) x) (broadcast_dims xs ys)
      else if x = 1 then map_option ((#) y) (broadcast_dims xs ys)
      else None)"

definition broadcast_shape :: "nat list \<Rightarrow> nat list \<Rightarrow> nat list option" where
  "broadcast_shape a b = map_option rev (broadcast_dims (rev a) (rev b))"

fun expand :: "nat list \<Rightarrow> nat list \<Rightarrow> 'a list \<Rightarrow> 'a list" where
  "expand (r # rs) (s # ss) v =
     (if s = r
      then concat (map (\<lambda>k. expand rs ss (take (prod_list ss) (drop (k * prod_list ss) v))) [0..<r])
      else concat (replicate r (expand rs ss v)))"
| "expand [] ss v = v"
| "expand (r # rs) [] v = v"

definition broadcast_to :: "nat list \<Rightarrow> 'a tensor \<Rightarrow> 'a list" where
  "broadcast_to r t = expand r (replicate (length r - length (shape t)) 1 @ shape t) (vals t)"

text \<open>\<^verbatim>\<open>a + b\<close> on tensors, and the in-place \<^verbatim>\<open>a += b\<close>, which cannot change the shape of \<open>a\<close>.\<close>

definition tensor_add :: "arith \<Rightarrow> fp tensor \<Rightarrow> fp tensor \<Rightarrow> fp tensor outcome" where
  "tensor_add A a b =
     (case broadcast_shape (shape a) (shape b) of
        None \<Rightarrow> Raises RuntimeError
      | Some r \<Rightarrow> Returns \<lparr>shape = r,
                            vals = map2 (fl_add (round_tensor A)) (broadcast_to r a) (broadcast_to r b)\<rparr>)"


section \<open>Models and their parameters\<close>

text \<open>
  A parameter has a value (\<^verbatim>\<open>p.data\<close>) and a gradient (\<^verbatim>\<open>p.grad\<close>, \<open>None\<close> until a
  backward pass has filled it). A model is the list \<^verbatim>\<open>model.named_parameters()\<close>, in
  its order, the flag set by \<^verbatim>\<open>model.train()\<close> and \<^verbatim>\<open>model.eval()\<close>, and the list
  of its modules in the order in which \<^verbatim>\<open>model.apply\<close> visits them. A batch-norm module
  has running statistics and a momentum (\<open>None\<close> is allowed by torch).
\<close>

record param =
  data :: "fp tensor"
  grad :: "fp tensor option"

datatype module =
    BatchNorm (running_mean: "fp tensor") (running_var: "fp tensor") (momentum: "real option")
  | OtherModule

record model =
  named_parameters :: "(string \<times> param) list"
  training :: bool
  modules :: "module list"

text \<open>\<^verbatim>\<open>sub in s\<close> on strings.\<close>

fun starts_with :: "string \<Rightarrow> string \<Rightarrow> bool" where
  "starts_with [] s = True"
| "starts_with (c # cs) [] = False"
| "starts_with (c # cs) (d # ds) = (c = d \<and> starts_with cs ds)"

fun contains :: "string \<Rightarrow> string \<Rightarrow> bool" where
  "contains sub [] = (sub = [])"
| "contains sub (c # s) = (starts_with sub (c # s) \<or> contains sub s)"

text \<open>The test \<^verbatim>\<open>"conv" in n\<close> that selects the SI parameters.\<close>

definition is_si :: "string \<Rightarrow> bool" where
  "is_si n = contains ''conv'' n"

text \<open>A loop whose body can raise: the first failure ends it.\<close>

fun for_each :: "('a \<Rightarrow> 'b outcome) \<Rightarrow> 'a list \<Rightarrow> 'b list outcome" where
  "for_each f [] = Returns []"
| "for_each f (x # xs) = and_then (f x) (\<lambda>y. and_then (for_each f xs) (\<lambda>ys. Returns (y # ys)))"

section \<open>The SI norm\<close>

text \<open>
  \<^verbatim>\<open>
  def get_si_params_norm(model):
      si_pnorm = np.sqrt(sum((p ** 2).sum().item() for n, p in model.named_parameters() if "conv" in n))
      return si_pnorm
  \<close>
  \<^verbatim>\<open>np.sqrt\<close> of a Python float is a numpy \<open>float64\<close>.
\<close>

definition si_tensors :: "model \<Rightarrow> fp tensor list" where
  "si_tensors m = map (\<lambda>(n, p). data p) (filter (\<lambda>(n, p). is_si n) (named_parameters m))"

definition get_si_params_norm :: "arith \<Rightarrow> model \<Rightarrow> scalar" where
  "get_si_params_norm A m =
     NpFloat64 (fl_sqrt (round_double A) (reduce_sum (py_sum A) (map (sq_sum A) (si_tensors m))))"

text \<open>
  \<^verbatim>\<open>
  def fix_si_pnorm(model, si_pnorm_0, model_name="ResNet18"):
      si_pnorm = np.sqrt(sum((p ** 2).sum().item() for n, p in model.named_parameters() if "conv" in n))
      p_coef = si_pnorm_0 / si_pnorm
      for n, p in model.named_parameters():
          if "conv" in n:
              p.data *= p_coef
  \<close>
  \<open>si_pnorm_0\<close> is a Python float and \<open>si_pnorm\<close> a numpy \<open>float64\<close>.
\<close>

definition fix_si_pnorm :: "arith \<Rightarrow> model \<Rightarrow> real \<Rightarrow> model outcome" where
  "fix_si_pnorm A m si_pnorm_0 =
     (let si_pnorm = NpFloat64 (fl_sqrt (round_double A) (reduce_sum (py_sum A) (map (sq_sum A) (si_tensors m))))
      in and_then (truediv (round_double A) (PyFloat (Fin si_pnorm_0)) si_pnorm) (\<lambda>p_coef.
         Returns (m\<lparr>named_parameters :=
           map (\<lambda>(n, p). if is_si n then (n, p\<lparr>data := scale A (value_of p_coef) (data p)\<rparr>) else (n, p))
               (named_parameters m)\<rparr>)))"

section \<open>Snapshot and restore of parameters\<close>

text \<open>
  \<^verbatim>\<open>
  def get_si_params_data(model):
      grads = []
      params = []
      for n, p in model.named_parameters():
          if "conv" in n:
              grads.append(p.grad.data)
              params.append(p.data)
      return params, grads
  \<close>
  Reading \<^verbatim>\<open>p.grad.data\<close> raises \<open>AttributeError\<close> when \<^verbatim>\<open>p.grad\<close> is \<open>None\<close>.
\<close>

fun get_si_loop ::
  "(string \<times> param) list \<Rightarrow> fp tensor list \<Rightarrow> fp tensor list \<Rightarrow> (fp tensor list \<times> fp tensor list) outcome" where
  "get_si_loop [] grads params = Returns (params, grads)"
| "get_si_loop ((n, p) # rest) grads params =
     (if is_si n then
        (case grad p of
           None \<Rightarrow> Raises (AttributeError ''data'')
         | Some g \<Rightarrow> get_si_loop rest (grads @ [g]) (params @ [data p]))
      else get_si_loop rest grads params)"

definition get_si_params_data :: "model \<Rightarrow> (fp tensor list \<times> fp tensor list) outcome" where
  "get_si_params_data m = get_si_loop (named_parameters m) [] []"

text \<open>
  \<^verbatim>\<open>
  def set_si_params_data(model, params, grads, alpha):
      for i, (n, p) in enumerate(model.named_parameters()):
          if "conv" in n:
              p.data = params[i]
              p.grad.data = (alpha) * p.grad.data + (1-alpha) * grads[i]
  \<close>
  \<open>i\<close> counts all named parameters. Both assignments rebind, nothing is updated in place.
  \<open>alpha\<close> is a Python float.
\<close>

definition set_si_param ::
  "arith \<Rightarrow> fp tensor list \<Rightarrow> fp tensor list \<Rightarrow> real \<Rightarrow> nat \<times> string \<times> param \<Rightarrow> (string \<times> param) outcome" where
  "set_si_param A params grads alpha = (\<lambda>(i, n, p).
     if is_si n then
       (if i < length params then
          (case grad p of
             None \<Rightarrow> Raises (AttributeError ''data'')
           | Some g \<Rightarrow>
               if i < length grads then
                 and_then (tensor_add A (scale A (Fin alpha) g)
                                        (scale A (round_double A (1 - alpha)) (grads ! i)))
                   (\<lambda>g'. Returns (n, \<lparr>data = params ! i, grad = Some g'\<rparr>))
               else Raises IndexError)
        else Raises IndexError)
     else Returns (n, p))"

definition set_si_params_data ::
  "arith \<Rightarrow> model \<Rightarrow> fp tensor list \<Rightarrow> fp tensor list \<Rightarrow> real \<Rightarrow> model outcome" where
  "set_si_params_data A m params grads alpha =
     and_then (for_each (set_si_param A params grads alpha) (enumerate 0 (named_parameters m)))
       (\<lambda>nps. Returns (m\<lparr>named_parameters := nps\<rparr>))"

text \<open>
  \<^verbatim>\<open>
  def update_si_params_data(model, grad_norm, r):
      for i, param in enumerate(model.parameters()):
          param.data = param.data + r * param.grad.data / grad_norm
  \<close>
  \<open>grad_norm\<close> is a zero-dimensional tensor and \<open>r\<close> a Python float.
\<close>

definition update_param :: "arith \<Rightarrow> fp \<Rightarrow> real \<Rightarrow> string \<times> param \<Rightarrow> (string \<times> param) outcome" where
  "update_param A grad_norm r = (\<lambda>(n, p).
     case grad p of
       None \<Rightarrow> Raises (AttributeError ''data'')
     | Some g \<Rightarrow>
         and_then (tensor_add A (data p) (div_scalar A (scale A (Fin r) g) grad_norm)) (\<lambda>x.
         Returns (n, p\<lparr>data := x\<rparr>)))"

definition update_si_params_data :: "arith \<Rightarrow> model \<Rightarrow> fp \<Rightarrow> real \<Rightarrow> model outcome" where
  "update_si_params_data A m grad_norm r =
     and_then (for_each (update_param A grad_norm r) (named_parameters m))
       (\<lambda>nps. Returns (m\<lparr>named_parameters := nps\<rparr>))"

section \<open>moving_average\<close>



section \<open>Loaders\<close>

text \<open>
  A data loader yields its batches in order; \<^verbatim>\<open>len(loader)\<close> is their number and
  \<^verbatim>\<open>len(loader.dataset)\<close> the number of examples. The epoch functions rebind their local
  variable \<open>loader\<close> to an \<^verbatim>\<open>itertools.islice\<close> or a \<^verbatim>\<open>tqdm\<close> object; both yield the
  items of what they wrap, and neither has an attribute \<open>dataset\<close>.
\<close>

record 'b data_loader =
  batches :: "'b list"
  dataset_len :: nat

datatype 'b loader_obj =
    DataLoader "'b data_loader"
  | Islice "'b list"
  | Tqdm "'b list"

fun items :: "'b loader_obj \<Rightarrow> 'b list" where
  "items (DataLoader l) = batches l"
| "items (Islice xs) = xs"
| "items (Tqdm xs) = xs"

fun len_dataset :: "'b loader_obj \<Rightarrow> nat outcome" where
  "len_dataset (DataLoader l) = Returns (dataset_len l)"
| "len_dataset (Islice xs) = Raises (AttributeError ''dataset'')"
| "len_dataset (Tqdm xs) = Raises (AttributeError ''dataset'')"

text \<open>\<^verbatim>\<open>itertools.islice(it, k)\<close> refuses a negative \<open>k\<close>.\<close>

definition islice :: "'b list \<Rightarrow> int \<Rightarrow> 'b list outcome" where
  "islice xs k = (if k < 0 then Raises ValueError else Returns (take (nat k) xs))"

text \<open>
  The common opening of \<open>train_epoch\<close>, \<open>SAM_train_epoch\<close> and \<open>bn_update\<close>:
  \<^verbatim>\<open>
      num_batches = len(loader)
      if subset is not None:
          num_batches = int(num_batches * subset)
          loader = itertools.islice(loader, num_batches)
      if verbose:
          loader = tqdm.tqdm(loader, total=num_batches)
  \<close>
  \<open>subset\<close> enters these functions through \<^verbatim>\<open>int(num_batches * subset)\<close> only, a product of
  floating-point numbers truncated towards zero (\<open>int\<close> raises for \<open>inf\<close> and \<open>nan\<close>). The
  argument is given as that map from \<open>num_batches\<close> to the truncated product.
\<close>

type_synonym subset_map = "nat \<Rightarrow> int outcome"

definition wrap_loader :: "'b data_loader \<Rightarrow> subset_map option \<Rightarrow> bool \<Rightarrow> (int \<times> 'b loader_obj) outcome" where
  "wrap_loader loader sub verbose =
     and_then
       (case sub of
          None \<Rightarrow> Returns (int (length (batches loader)), DataLoader loader)
        | Some s \<Rightarrow>
            and_then (s (length (batches loader))) (\<lambda>num_batches.
            and_then (islice (batches loader) num_batches) (\<lambda>xs. Returns (num_batches, Islice xs))))
       (\<lambda>(num_batches, ld). Returns (num_batches, if verbose then Tqdm (items ld) else ld))"

section \<open>bn_update\<close>

text \<open>
  \<^verbatim>\<open>
  def _check_bn(module, flag):
      if issubclass(module.__class__, torch.nn.modules.batchnorm._BatchNorm):
          flag[0] = True

  def check_bn(model):
      flag = [False]
      model.apply(lambda module: _check_bn(module, flag))
      return flag[0]

  def reset_bn(module):
      if issubclass(module.__class__, torch.nn.modules.batchnorm._BatchNorm):
          module.running_mean = torch.zeros_like(module.running_mean)
          module.running_var = torch.ones_like(module.running_var)

  def _get_momenta(module, momenta):
      if issubclass(module.__class__, torch.nn.modules.batchnorm._BatchNorm):
          momenta[module] = module.momentum

  def _set_momenta(module, momenta):
      if issubclass(module.__class__, torch.nn.modules.batchnorm._BatchNorm):
          module.momentum = momenta[module]
  \<close>
  \<open>momenta\<close> is keyed by the module; here by its position in the list of modules.
\<close>

fun is_bn :: "module \<Rightarrow> bool" where
  "is_bn (BatchNorm rm rv mo) = True"
| "is_bn OtherModule = False"

definition check_bn_module :: "module \<Rightarrow> bool \<Rightarrow> bool" where
  "check_bn_module md flag = (if is_bn md then True else flag)"

definition check_bn :: "model \<Rightarrow> bool" where
  "check_bn m = fold check_bn_module (modules m) False"

fun reset_bn :: "module \<Rightarrow> module" where
  "reset_bn (BatchNorm rm rv mo) =
     BatchNorm \<lparr>shape = shape rm, vals = map (\<lambda>x. Fin 0) (vals rm)\<rparr>
               \<lparr>shape = shape rv, vals = map (\<lambda>x. Fin 1) (vals rv)\<rparr> mo"
| "reset_bn OtherModule = OtherModule"

type_synonym momenta = "nat \<rightharpoonup> real option"

fun get_momenta :: "nat \<times> module \<Rightarrow> momenta \<Rightarrow> momenta" where
  "get_momenta (k, BatchNorm rm rv mo) momenta = momenta(k \<mapsto> mo)"
| "get_momenta (k, OtherModule) momenta = momenta"

fun set_momenta :: "momenta \<Rightarrow> nat \<times> module \<Rightarrow> module outcome" where
  "set_momenta momenta (k, BatchNorm rm rv mo) =
     (case momenta k of None \<Rightarrow> Raises KeyError | Some mo' \<Rightarrow> Returns (BatchNorm rm rv mo'))"
| "set_momenta momenta (k, OtherModule) = Returns OtherModule"

text \<open>\<^verbatim>\<open>for module in momenta.keys(): module.momentum = momentum\<close>\<close>

fun assign_momentum :: "momenta \<Rightarrow> real \<Rightarrow> nat \<times> module \<Rightarrow> module" where
  "assign_momentum momenta mom (k, BatchNorm rm rv mo) =
     (if k \<in> dom momenta then BatchNorm rm rv (Some mom) else BatchNorm rm rv mo)"
| "assign_momentum momenta mom (k, OtherModule) = OtherModule"

text \<open>
  \<^verbatim>\<open>
  def bn_update(loader, model, verbose=False, subset=None, **kwargs):
      if not check_bn(model):
          return
      model.train()
      momenta = {}
      model.apply(reset_bn)
      model.apply(lambda module: _get_momenta(module, momenta))
      n = 0
      num_batches = len(loader)

      with torch.no_grad():
          if subset is not None:
              num_batches = int(num_batches * subset)
              loader = itertools.islice(loader, num_batches)
          if verbose:
              loader = tqdm.tqdm(loader, total=num_batches)
          for input, _ in loader:
              input = input.cuda(non_blocking=True)
              input_var = torch.autograd.Variable(input)
              b = input_var.data.size(0)

              momentum = b / (n + b)
              for module in momenta.keys():
                  module.momentum = momentum

              model(input_var, **kwargs)
              n += b

      model.apply(lambda module: _set_momenta(module, momenta))
  \<close>
  The forward pass \<^verbatim>\<open>model(input_var)\<close> and the size of a batch are the caller's:
  \<open>forward m b\<close> is the model after the pass (in training mode a batch-norm module updates
  its running statistics), \<open>size0 b\<close> is \<^verbatim>\<open>input.size(0)\<close>. The result is the model after the
  call together with the batches that were passed forward, in order.
\<close>

fun bn_loop ::
  "(model \<Rightarrow> 'b \<Rightarrow> model) \<Rightarrow> ('b \<Rightarrow> nat) \<Rightarrow> momenta \<Rightarrow> 'b list \<Rightarrow> nat \<Rightarrow> model \<times> 'b list \<Rightarrow> (model \<times> 'b list) outcome" where
  "bn_loop forward size0 momenta [] n (m, passes) = Returns (m, passes)"
| "bn_loop forward size0 momenta (input # rest) n (m, passes) =
     (let b = size0 input
      in if n + b = 0 then Raises ZeroDivisionError
         else
           (let mom = real b / real (n + b);
                m1 = m\<lparr>modules := map (assign_momentum momenta mom) (enumerate 0 (modules m))\<rparr>;
                m2 = forward m1 input
            in bn_loop forward size0 momenta rest (n + b) (m2, passes @ [input])))"

definition bn_update ::
  "(model \<Rightarrow> 'b \<Rightarrow> model) \<Rightarrow> ('b \<Rightarrow> nat) \<Rightarrow> 'b data_loader \<Rightarrow> model \<Rightarrow> bool \<Rightarrow> subset_map option
     \<Rightarrow> (model \<times> 'b list) outcome" where
  "bn_update forward size0 loader m verbose sub =
     (if \<not> check_bn m then Returns (m, [])
      else
        (let m1 = m\<lparr>training := True\<rparr>;
             m2 = m1\<lparr>modules := map reset_bn (modules m1)\<rparr>;
             momenta = fold get_momenta (enumerate 0 (modules m2)) Map.empty
         in and_then (wrap_loader loader sub verbose) (\<lambda>(num_batches, ld).
            and_then (bn_loop forward size0 momenta (items ld) 0 (m2, [])) (\<lambda>(m3, passes).
            and_then (for_each (set_momenta momenta) (enumerate 0 (modules m3))) (\<lambda>ms.
            Returns (m3\<lparr>modules := ms\<rparr>, passes))))))"

section \<open>Checkpoints\<close>

text \<open>
  \<^verbatim>\<open>
  def save_checkpoint_int(dir, epoch, index, name="checkpoint", **kwargs):
      state = {"epoch": epoch,"index":index}
      state.update(kwargs)
      filepath = os.path.join(dir, "%s-%d-%d.pt" % (name, epoch,index))
      torch.save(state, filepath)
  \<close>
  A written file is recorded by its directory, the two numbers of its name and the
  state saved in it. \<^verbatim>\<open>"%d" % None\<close> and \<^verbatim>\<open>os.path.join(None, ...)\<close> raise \<open>TypeError\<close>.
\<close>

record 'o checkpoint =
  ckpt_dir :: string
  ckpt_epoch :: int
  ckpt_index :: int
  state_dict :: model
  optimizer_state :: 'o

definition save_checkpoint_int ::
  "string option \<Rightarrow> int option \<Rightarrow> int \<Rightarrow> model \<Rightarrow> 'o \<Rightarrow> 'o checkpoint outcome" where
  "save_checkpoint_int dir epoch index sd opt =
     (case epoch of
        None \<Rightarrow> Raises TypeError
      | Some e \<Rightarrow>
          (case dir of
             None \<Rightarrow> Raises TypeError
           | Some d \<Rightarrow> Returns \<lparr>ckpt_dir = d, ckpt_epoch = e, ckpt_index = index,
                                  state_dict = sd, optimizer_state = opt\<rparr>))"

section \<open>The collaborators of an epoch\<close>

text \<open>
  The criterion, the backward pass, the optimizer and the count of correct predictions
  are the caller's and are taken as total functions:
  \<^item> \<open>criterion m b reduction\<close> is \<^verbatim>\<open>criterion(model, input, target, reduction)\<close>: the loss
    as a number and the output;
  \<^item> \<open>loss_backward m b reduction c\<close> is the model after \<^verbatim>\<open>loss.backward()\<close> for the loss of
    that call multiplied by \<open>c\<close>: gradients are accumulated into \<^verbatim>\<open>p.grad\<close>;
  \<^item> \<open>optimizer_step\<close> and \<open>optimizer_zero_grad\<close> are \<^verbatim>\<open>optimizer.step()\<close> and
    \<^verbatim>\<open>optimizer.zero_grad()\<close>;
  \<^item> \<open>num_correct out b\<close> is \<^verbatim>\<open>pred.eq(target.data.view_as(pred)).sum().item()\<close> for
    \<^verbatim>\<open>pred = output.data.argmax(1, keepdim=True)\<close>;
  \<^item> \<open>size0 b\<close> is \<^verbatim>\<open>input.size(0)\<close> and \<open>to_cuda b\<close> the batch moved to the device;
  \<^item> \<open>arithmetic\<close> is the floating-point arithmetic of the tensors.
\<close>

datatype reduction = Sum | Mean

record ('b, 'out, 'o) collaborators =
  criterion :: "model \<Rightarrow> 'b \<Rightarrow> reduction \<Rightarrow> real \<times> 'out"
  loss_backward :: "model \<Rightarrow> 'b \<Rightarrow> reduction \<Rightarrow> real \<Rightarrow> model"
  optimizer_step :: "'o \<Rightarrow> model \<Rightarrow> 'o \<times> model"
  optimizer_zero_grad :: "'o \<Rightarrow> model \<Rightarrow> model"
  num_correct :: "'out \<Rightarrow> 'b \<Rightarrow> real"
  size0 :: "'b \<Rightarrow> nat"
  to_cuda :: "'b \<Rightarrow> 'b"
  arithmetic :: arith

text \<open>The keyword arguments of \<open>train_epoch\<close> and \<open>SAM_train_epoch\<close>.\<close>

record flags =
  cuda :: bool
  regression :: bool
  verbose :: bool
  subset_arg :: "subset_map option"
  fbgd :: bool
  save_freq_int :: int
  epoch :: "int option"
  output_dir :: "string option"
  si_pnorm_0 :: "real option"

text \<open>
  The calls made on the model and the optimizer, in order, and the local variables of an
  epoch: what is mutated (model, optimizer), the accumulators, what was printed and the
  checkpoints written.
\<close>

datatype call = ModelTrain | ZeroGrad | Forward | Backward | OptimizerStep | FixSiPnorm

record 'o run =
  net :: model
  optim :: 'o
  loss_sum :: real
  correct :: real
  verb_stage :: int
  save_ind :: int
  num_objects_current :: nat
  printed :: "(int \<times> real \<times> real) list"
  checkpoints :: "'o checkpoint list"
  calls :: "call list"

record epoch_result =
  loss :: real
  accuracy :: "real option"
  weights_norm :: scalar

section \<open>train_epoch\<close>

text \<open>
  The steps shared by the two epoch functions. After the update of a batch:
  \<^verbatim>\<open>
          if not regression:
              pred = output.data.argmax(1, keepdim=True)
              correct += pred.eq(target.data.view_as(pred)).sum().item()

          num_objects_current += input.size(0)

          if verbose and 10 * (i + 1) / num_batches >= verb_stage + 1:
              print(
                  "Stage %d/10. Loss: %12.4f. Acc: %6.2f"
                  % (
                      verb_stage + 1,
                      loss_sum / num_objects_current,
                      correct / num_objects_current * 100.0,
                  )
              )
              verb_stage += 1

          if (save_freq_int > 0) and (save_freq_int*(i+1)/ num_batches >= save_ind + 1) and (save_ind + 1 < save_freq_int):
              save_checkpoint_int(
                  output_dir,
                  epoch,
                  save_ind + 1,
                  state_dict=model.state_dict(),
                  optimizer=optimizer.state_dict()
              )
              save_ind += 1
  \<close>
  The quotients of integers are compared exactly.
\<close>

definition count_batch ::
  "('b, 'out, 'o) collaborators \<Rightarrow> flags \<Rightarrow> 'out \<Rightarrow> 'b \<Rightarrow> 'o run \<Rightarrow> 'o run" where
  "count_batch C fl out b st =
     (let st1 = (if \<not> regression fl then st\<lparr>correct := correct st + num_correct C out b\<rparr> else st)
      in st1\<lparr>num_objects_current := num_objects_current st1 + size0 C b\<rparr>)"

definition report_stage :: "flags \<Rightarrow> int \<Rightarrow> nat \<Rightarrow> 'o run \<Rightarrow> 'o run outcome" where
  "report_stage fl num_batches i st =
     (if verbose fl then
        (if num_batches = 0 then Raises ZeroDivisionError
         else if real_of_int (10 * (int i + 1)) / real_of_int num_batches \<ge> real_of_int (verb_stage st + 1) then
           (if num_objects_current st = 0 then Raises ZeroDivisionError
            else Returns (st\<lparr>printed := printed st @
                               [(verb_stage st + 1,
                                 loss_sum st / real (num_objects_current st),
                                 correct st / real (num_objects_current st) * 100)],
                             verb_stage := verb_stage st + 1\<rparr>))
         else Returns st)
      else Returns st)"

definition save_stage :: "flags \<Rightarrow> int \<Rightarrow> nat \<Rightarrow> 'o run \<Rightarrow> 'o run outcome" where
  "save_stage fl num_batches i st =
     (if save_freq_int fl > 0 then
        (if num_batches = 0 then Raises ZeroDivisionError
         else if real_of_int (save_freq_int fl * (int i + 1)) / real_of_int num_batches \<ge> real_of_int (save_ind st + 1)
                 \<and> save_ind st + 1 < save_freq_int fl then
           and_then (save_checkpoint_int (output_dir fl) (epoch fl) (save_ind st + 1) (net st) (optim st))
             (\<lambda>ck. Returns (st\<lparr>checkpoints := checkpoints st @ [ck], save_ind := save_ind st + 1\<rparr>))
         else Returns st)
      else Returns st)"

text \<open>
  The steps on the optimizer:
  \<^verbatim>\<open>
              optimizer.step()
              optimizer.zero_grad()

              if si_pnorm_0 is not None:
                  fix_si_pnorm(model, si_pnorm_0)
  \<close>
  inside the loop, and after the loop, under \<open>fbgd\<close>,
  \<^verbatim>\<open>
          optimizer.step()
          optimizer.zero_grad()

          if si_pnorm_0 is not None:
              fix_si_pnorm(model, si_pnorm_0, model_name)
  \<close>
  where \<open>model_name\<close> is neither a parameter, a local variable nor a global name of the
  module: evaluating the argument raises \<open>NameError\<close> before \<open>fix_si_pnorm\<close> is called.
\<close>

definition step_and_zero :: "('b, 'out, 'o) collaborators \<Rightarrow> 'o run \<Rightarrow> 'o run" where
  "step_and_zero C st =
     (let (opt1, m1) = optimizer_step C (optim st) (net st);
          m2 = optimizer_zero_grad C opt1 m1
      in st\<lparr>net := m2, optim := opt1, calls := calls st @ [OptimizerStep, ZeroGrad]\<rparr>)"

definition si_fix_in_loop :: "('b, 'out, 'o) collaborators \<Rightarrow> flags \<Rightarrow> 'o run \<Rightarrow> 'o run outcome" where
  "si_fix_in_loop C fl st =
     (case si_pnorm_0 fl of
        None \<Rightarrow> Returns st
      | Some t \<Rightarrow> and_then (fix_si_pnorm (arithmetic C) (net st) t)
                   (\<lambda>m. Returns (st\<lparr>net := m, calls := calls st @ [FixSiPnorm]\<rparr>)))"

definition si_fix_after_loop :: "flags \<Rightarrow> 'o run \<Rightarrow> 'o run outcome" where
  "si_fix_after_loop fl st =
     (case si_pnorm_0 fl of
        None \<Rightarrow> Returns st
      | Some t \<Rightarrow> Raises (NameError ''model_name''))"

definition fbgd_tail :: "('b, 'out, 'o) collaborators \<Rightarrow> flags \<Rightarrow> 'o run \<Rightarrow> 'o run outcome" where
  "fbgd_tail C fl st =
     (if fbgd fl then si_fix_after_loop fl (step_and_zero C st) else Returns st)"

text \<open>
  \<^verbatim>\<open>
      return {
          "loss": loss_sum / num_objects_current,
          "accuracy": None if regression else correct / num_objects_current * 100.0,
          "weights_norm" : get_si_params_norm(model)
      }
  \<close>
\<close>

definition epoch_return ::
  "('b, 'out, 'o) collaborators \<Rightarrow> flags \<Rightarrow> 'o run \<Rightarrow> (epoch_result \<times> 'o run) outcome" where
  "epoch_return C fl st =
     (if num_objects_current st = 0 then Raises ZeroDivisionError
      else Returns
        (\<lparr>loss = loss_sum st / real (num_objects_current st),
          accuracy = (if regression fl then None
                      else Some (correct st / real (num_objects_current st) * 100)),
          weights_norm = get_si_params_norm (arithmetic C) (net st)\<rparr>, st))"

text \<open>
  The accumulation of a gradient under \<open>fbgd\<close>:
  \<^verbatim>\<open>
              loss_sum += loss.item()
              loss /= len(loader.dataset)
              loss.backward()
  \<close>
  \<open>loader\<close> is the local variable, which may have been rebound. Dividing the loss tensor by
  zero does not raise.
\<close>

definition fbgd_backward ::
  "('b, 'out, 'o) collaborators \<Rightarrow> 'b loader_obj \<Rightarrow> reduction \<Rightarrow> real \<Rightarrow> 'b \<Rightarrow> 'o run \<Rightarrow> 'o run outcome" where
  "fbgd_backward C ld red l b st =
     (let st1 = st\<lparr>loss_sum := loss_sum st + l\<rparr>
      in and_then (len_dataset ld) (\<lambda>n.
         if n = 0 then Nonfinite
         else Returns (st1\<lparr>net := loss_backward C (net st1) b red (1 / real n),
                           calls := calls st1 @ [Backward]\<rparr>)))"

text \<open>
  The body of the loop of \<open>train_epoch\<close>, up to the bookkeeping:
  \<^verbatim>\<open>
          if cuda:
              input = input.cuda(non_blocking=True)
              target = target.cuda(non_blocking=True)

          loss, output = criterion(model, input, target, reduction)

          if fbgd:
              loss_sum += loss.item()
              loss /= len(loader.dataset)
              loss.backward()
          else:
              loss.backward()
              optimizer.step()
              optimizer.zero_grad()

              if si_pnorm_0 is not None:
                  fix_si_pnorm(model, si_pnorm_0)

              loss_sum += loss.data.item() * input.size(0)
  \<close>
\<close>

definition train_update ::
  "('b, 'out, 'o) collaborators \<Rightarrow> flags \<Rightarrow> 'b loader_obj \<Rightarrow> reduction \<Rightarrow> 'b \<Rightarrow> 'o run
     \<Rightarrow> ('out \<times> 'o run) outcome" where
  "train_update C fl ld red b st =
     (let (l, out) = criterion C (net st) b red;
          st1 = st\<lparr>calls := calls st @ [Forward]\<rparr>
      in if fbgd fl then
           and_then (fbgd_backward C ld red l b st1) (\<lambda>st2. Returns (out, st2))
         else
           (let st2 = st1\<lparr>net := loss_backward C (net st1) b red 1, calls := calls st1 @ [Backward]\<rparr>;
                st3 = step_and_zero C st2
            in and_then (si_fix_in_loop C fl st3) (\<lambda>st4.
               Returns (out, st4\<lparr>loss_sum := loss_sum st4 + l * real (size0 C b)\<rparr>))))"

definition train_batch ::
  "('b, 'out, 'o) collaborators \<Rightarrow> flags \<Rightarrow> int \<Rightarrow> 'b loader_obj \<Rightarrow> reduction \<Rightarrow> nat \<times> 'b
     \<Rightarrow> 'o run \<Rightarrow> 'o run outcome" where
  "train_batch C fl num_batches ld red = (\<lambda>(i, b0) st.
     let b = (if cuda fl then to_cuda C b0 else b0)
     in and_then (train_update C fl ld red b st) (\<lambda>(out, st1).
        and_then (report_stage fl num_batches i (count_batch C fl out b st1)) (\<lambda>st2.
        save_stage fl num_batches i st2)))"

text \<open>A \<^verbatim>\<open>for\<close> loop over the state: the first failure ends it.\<close>

fun for_loop :: "('a \<Rightarrow> 's \<Rightarrow> 's outcome) \<Rightarrow> 'a list \<Rightarrow> 's \<Rightarrow> 's outcome" where
  "for_loop body [] st = Returns st"
| "for_loop body (x # xs) st = and_then (body x st) (for_loop body xs)"

text \<open>
  \<^verbatim>\<open>
      loss_sum = 0.0
      correct = 0.0
      verb_stage = 0
      save_ind = 0

      num_objects_current = 0
      num_batches = len(loader)

      model.train()
      ...
      reduction = "sum" if fbgd else "mean"
      optimizer.zero_grad()
  \<close>
\<close>

definition start_epoch :: "('b, 'out, 'o) collaborators \<Rightarrow> model \<Rightarrow> 'o \<Rightarrow> 'o run" where
  "start_epoch C m opt =
     \<lparr>net = m\<lparr>training := True\<rparr>, optim = opt, loss_sum = 0, correct = 0, verb_stage = 0, save_ind = 0,
      num_objects_current = 0, printed = [], checkpoints = [], calls = [ModelTrain]\<rparr>"

definition zero_grad_first :: "('b, 'out, 'o) collaborators \<Rightarrow> 'o run \<Rightarrow> 'o run" where
  "zero_grad_first C st =
     st\<lparr>net := optimizer_zero_grad C (optim st) (net st), calls := calls st @ [ZeroGrad]\<rparr>"

definition train_epoch ::
  "('b, 'out, 'o) collaborators \<Rightarrow> 'b data_loader \<Rightarrow> model \<Rightarrow> 'o \<Rightarrow> flags
     \<Rightarrow> (epoch_result \<times> 'o run) outcome" where
  "train_epoch C loader m opt fl =
     (let st0 = start_epoch C m opt
      in and_then (wrap_loader loader (subset_arg fl) (verbose fl)) (\<lambda>(num_batches, ld).
         let red = (if fbgd fl then Sum else Mean);
             st1 = zero_grad_first C st0
         in and_then (for_loop (train_batch C fl num_batches ld red) (enumerate 0 (items ld)) st1) (\<lambda>st2.
            and_then (fbgd_tail C fl st2) (\<lambda>st3.
            epoch_return C fl st3))))"

section \<open>SAM_train_epoch\<close>

text \<open>
  The module defines \<open>get_si_params_data\<close>, and \<open>SAM_train_epoch\<close> calls \<open>get_params_data\<close>:
  \<^verbatim>\<open>
          params, grads = get_params_data(model)
  \<close>
  No \<open>get_params_data\<close> is defined or imported in the module, so the call raises
  \<open>NameError\<close>.
\<close>

definition get_params_data :: "model \<Rightarrow> (fp tensor list \<times> fp tensor list) outcome" where
  "get_params_data m = Raises (NameError ''get_params_data'')"

text \<open>
  \<^verbatim>\<open>
          grad_norm = torch.norm(torch.cat([i.flatten() for i in grads]).clone().detach())
  \<close>
\<close>

definition grad_norm_of :: "arith \<Rightarrow> fp tensor list \<Rightarrow> fp outcome" where
  "grad_norm_of A grads =
     and_then (torch_cat (map view_flat grads)) (\<lambda>c. Returns (fl_sqrt (round_tensor A) (sq_sum A c)))"

text \<open>
  The body of the loop of \<open>SAM_train_epoch\<close>, up to the bookkeeping:
  \<^verbatim>\<open>
          # first forward
          loss, output = criterion(model, input, target, reduction)
          loss.backward()
          # get grad and weights
          params, grads = get_params_data(model)
          # find norm_grad
          grad_norm = torch.norm(torch.cat([i.flatten() for i in grads]).clone().detach())
          # update weights to w+r*grad/||grad||
          update_si_params_data(model, grad_norm, r)
          # second forward
          loss, output = criterion(model, input, target, reduction)
          if fbgd:
              loss_sum += loss.item()
              loss /= len(loader.dataset)
              loss.backward()
          else:
              # second backward, find new gradient
              loss.backward()
              loss_sum += loss.data.item() * input.size(0)
          # back to w weights
          set_si_params_data(model, params, grads, alpha)
          # do step for w weights with SAM direction
          if not fbgd:
              optimizer.step()
              optimizer.zero_grad()
              if si_pnorm_0 is not None:
                  fix_si_pnorm(model, si_pnorm_0)
  \<close>
\<close>

definition SAM_second_pass ::
  "('b, 'out, 'o) collaborators \<Rightarrow> flags \<Rightarrow> 'b loader_obj \<Rightarrow> reduction \<Rightarrow> 'b \<Rightarrow> 'o run
     \<Rightarrow> ('out \<times> 'o run) outcome" where
  "SAM_second_pass C fl ld red b st =
     (let (l, out) = criterion C (net st) b red;
          st1 = st\<lparr>calls := calls st @ [Forward]\<rparr>
      in if fbgd fl then
           and_then (fbgd_backward C ld red l b st1) (\<lambda>st2. Returns (out, st2))
         else
           Returns (out, st1\<lparr>net := loss_backward C (net st1) b red 1, calls := calls st1 @ [Backward],
                              loss_sum := loss_sum st1 + l * real (size0 C b)\<rparr>))"

definition SAM_update ::
  "('b, 'out, 'o) collaborators \<Rightarrow> flags \<Rightarrow> real \<Rightarrow> real \<Rightarrow> 'b loader_obj \<Rightarrow> reduction \<Rightarrow> 'b \<Rightarrow> 'o run
     \<Rightarrow> ('out \<times> 'o run) outcome" where
  "SAM_update C fl r alpha ld red b st =
     (let (l, out) = criterion C (net st) b red;
          st1 = st\<lparr>net := loss_backward C (net st) b red 1, calls := calls st @ [Forward, Backward]\<rparr>
      in and_then (get_params_data (net st1)) (\<lambda>(params, grads).
         and_then (grad_norm_of (arithmetic C) grads) (\<lambda>grad_norm.
         and_then (update_si_params_data (arithmetic C) (net st1) grad_norm r) (\<lambda>m2.
         and_then (SAM_second_pass C fl ld red b (st1\<lparr>net := m2\<rparr>)) (\<lambda>(out2, st3).
         and_then (set_si_params_data (arithmetic C) (net st3) params grads alpha) (\<lambda>m4.
         let st4 = st3\<lparr>net := m4\<rparr>
         in if \<not> fbgd fl then
              and_then (si_fix_in_loop C fl (step_and_zero C st4)) (\<lambda>st5. Returns (out2, st5))
            else Returns (out2, st4)))))))"

definition SAM_train_batch ::
  "('b, 'out, 'o) collaborators \<Rightarrow> flags \<Rightarrow> real \<Rightarrow> real \<Rightarrow> int \<Rightarrow> 'b loader_obj \<Rightarrow> reduction \<Rightarrow> nat \<times> 'b
     \<Rightarrow> 'o run \<Rightarrow> 'o run outcome" where
  "SAM_train_batch C fl r alpha num_batches ld red = (\<lambda>(i, b0) st.
     let b = (if cuda fl then to_cuda C b0 else b0)
     in and_then (SAM_update C fl r alpha ld red b st) (\<lambda>(out, st1).
        and_then (report_stage fl num_batches i (count_batch C fl out b st1)) (\<lambda>st2.
        save_stage fl num_batches i st2)))"

definition SAM_train_epoch ::
  "('b, 'out, 'o) collaborators \<Rightarrow> 'b data_loader \<Rightarrow> model \<Rightarrow> 'o \<Rightarrow> real \<Rightarrow> real \<Rightarrow> flags
     \<Rightarrow> (epoch_result \<times> 'o run) outcome" where
  "SAM_train_epoch C loader m opt r alpha fl =
     (let st0 = start_epoch C m opt
      in and_then (wrap_loader loader (subset_arg fl) (verbose fl)) (\<lambda>(num_batches, ld).
         let red = (if fbgd fl then Sum else Mean);
             st1 = zero_grad_first C st0
         in and_then (for_loop (SAM_train_batch C fl r alpha num_batches ld red) (enumerate 0 (items ld)) st1) (\<lambda>st2.
            and_then (fbgd_tail C fl st2) (\<lambda>st3.
            epoch_return C fl st3))))"

section \<open>Mid-epoch checkpoints written so far\<close>

text \<open>What the checkpoints written so far look like when \<open>save_ind\<close> of them have been written.\<close>

definition segments_saved :: "flags \<Rightarrow> 'o run \<Rightarrow> bool" where
  "segments_saved fl st =
     (map ckpt_index (checkpoints st) = [1..save_ind st]
      \<and> (\<forall>ck \<in> set (checkpoints st). epoch fl = Some (ckpt_epoch ck) \<and> output_dir fl = Some (ckpt_dir ck)))"

section \<open>Floating tolerance and the formulas of the specification\<close>

text \<open>
  The notions the statements about \<open>fix_si_pnorm\<close> and \<open>moving_average\<close> are written
  with. None of them is used by the functions above.
\<close>

text \<open>The real number of a finite value (0 for the others).\<close>

fun real_of :: "fp \<Rightarrow> real" where
  "real_of (Fin x) = x"
| "real_of v = 0"

text \<open>
  ``Within floating tolerance'': two non-negative numbers agree within \<open>e\<close> roundings of
  relative error \<open>u\<close> when each is at most \<open>(1 + u) ^ e\<close> times the other.
\<close>

definition close :: "real \<Rightarrow> nat \<Rightarrow> real \<Rightarrow> real \<Rightarrow> bool" where
  "close u e y x = (x \<le> (1 + u) ^ e * y \<and> y \<le> (1 + u) ^ e * x)"

text \<open>
  An arithmetic in which nothing overflows or underflows: a rounding returns, for every
  real number, a finite value of the same sign within relative error \<open>u\<close>, and a reduction
  over \<open>n\<close> non-negative finite values returns a finite value within \<open>n\<close> roundings of
  their sum, in whatever order it adds them. This is the usual model of floating-point
  arithmetic with an unbounded exponent; \<open>u\<close> is the unit roundoff.
\<close>

definition rounds_within :: "real \<Rightarrow> (real \<Rightarrow> fp) \<Rightarrow> bool" where
  "rounds_within u r = (\<forall>x. \<exists>y. r x = Fin y \<and> (0 \<le> x \<longrightarrow> 0 \<le> y) \<and> close u 1 \<bar>y\<bar> \<bar>x\<bar>)"

definition sums_within :: "real \<Rightarrow> (fp list \<Rightarrow> fp) \<Rightarrow> bool" where
  "sums_within u f =
     (\<forall>xs. xs \<noteq> [] \<and> (\<forall>x \<in> set xs. 0 \<le> x) \<longrightarrow>
        (\<exists>y. f (map Fin xs) = Fin y \<and> 0 \<le> y \<and> close u (length xs) y (sum_list xs)))"

definition accurate :: "real \<Rightarrow> arith \<Rightarrow> bool" where
  "accurate u A =
     (0 \<le> u \<and> rounds_within u (round_tensor A) \<and> rounds_within u (round_double A)
      \<and> sums_within u (tensor_sum A) \<and> sums_within u (py_sum A))"

text \<open>
  The entries of the SI parameters, in the order of the parameters, and their Euclidean
  norm as a real number.
\<close>

definition si_entries :: "model \<Rightarrow> fp list" where
  "si_entries m = concat (map vals (si_tensors m))"

definition true_norm :: "model \<Rightarrow> real" where
  "true_norm m = sqrt (sum_list (map (\<lambda>x. (real_of x)\<^sup>2) (si_entries m)))"

text \<open>
  One operation carried out within the tolerance. \<open>rounds_at\<close>: the rounding of the exact
  result \<open>x\<close> is finite, has the sign of \<open>x\<close> and is within relative error \<open>u\<close> of it (it
  has neither overflowed nor underflowed). \<open>sums_at\<close>: the reduction over the list is finite,
  not negative and within as many roundings of the sum as the list has entries.
\<close>

definition rounds_at :: "real \<Rightarrow> (real \<Rightarrow> fp) \<Rightarrow> real \<Rightarrow> bool" where
  "rounds_at u r x =
     (case r x of Fin y \<Rightarrow> (0 \<le> x \<longrightarrow> 0 \<le> y) \<and> close u 1 \<bar>y\<bar> \<bar>x\<bar> | _ \<Rightarrow> False)"

definition sums_at :: "real \<Rightarrow> (fp list \<Rightarrow> fp) \<Rightarrow> fp list \<Rightarrow> bool" where
  "sums_at u f xs =
     (xs \<noteq> [] \<longrightarrow>
        (case f xs of
           Fin y \<Rightarrow> 0 \<le> y \<and> close u (length xs) y (sum_list (map real_of xs))
         | _ \<Rightarrow> False))"

text \<open>
  A run without overflow and underflow. \<open>norm_ops_ok\<close>: the SI entries are finite, and
  every operation of \<open>get_si_params_norm\<close> on the model (the squares, the sum of each
  tensor, the sum of Python and the square root) is carried out within the tolerance.
  \<open>scale_ops_ok\<close>: the division \<^verbatim>\<open>si_pnorm_0 / si_pnorm\<close>, the conversion of the coefficient to
  the dtype of the tensors and the products of \<open>fix_si_pnorm\<close> are.
\<close>

definition norm_ops_ok :: "real \<Rightarrow> arith \<Rightarrow> model \<Rightarrow> bool" where
  "norm_ops_ok u A m =
     ((\<forall>x \<in> set (si_entries m). is_fin x \<and> rounds_at u (round_tensor A) (real_of x * real_of x))
      \<and> (\<forall>t \<in> set (si_tensors m).
            sums_at u (tensor_sum A) (map (\<lambda>x. fl_mul (round_tensor A) x x) (vals t)))
      \<and> sums_at u (py_sum A) (map (sq_sum A) (si_tensors m))
      \<and> rounds_at u (round_double A)
           (sqrt (real_of (reduce_sum (py_sum A) (map (sq_sum A) (si_tensors m))))))"

definition scale_ops_ok :: "real \<Rightarrow> arith \<Rightarrow> model \<Rightarrow> real \<Rightarrow> bool" where
  "scale_ops_ok u A m target =
     (let si_pnorm = value_of (get_si_params_norm A m);
          p_coef = fl_div (round_double A) (Fin target) si_pnorm;
          c = fl_round (round_tensor A) p_coef
      in rounds_at u (round_double A) (target / real_of si_pnorm)
         \<and> rounds_at u (round_tensor A) (real_of p_coef)
         \<and> (\<forall>x \<in> set (si_entries m). rounds_at u (round_tensor A) (real_of x * real_of c)))"

text \<open>
  An arithmetic made accurate everywhere: where an operation of \<open>A\<close> is within the
  tolerance the patched arithmetic returns what \<open>A\<close> returns, and elsewhere the exact
  result. A run all of whose operations are within the tolerance is a run of the patched
  arithmetic as well.
\<close>

definition patch_round :: "real \<Rightarrow> (real \<Rightarrow> fp) \<Rightarrow> real \<Rightarrow> fp" where
  "patch_round u r x = (if rounds_at u r x then r x else Fin x)"

definition patch_sum :: "real \<Rightarrow> (fp list \<Rightarrow> fp) \<Rightarrow> fp list \<Rightarrow> fp" where
  "patch_sum u f xs = (if sums_at u f xs then f xs else Fin (sum_list (map real_of xs)))"

definition patched :: "real \<Rightarrow> arith \<Rightarrow> arith" where
  "patched u A =
     \<lparr>round_tensor = patch_round u (round_tensor A), round_double = patch_round u (round_double A),
      tensor_sum = patch_sum u (tensor_sum A), py_sum = patch_sum u (py_sum A)\<rparr>"

text \<open>
  \<^verbatim>\<open>(1 - alpha) * param1 + alpha * param2\<close> entry by entry in the arithmetic of the tensors:
  \<^verbatim>\<open>1.0 - alpha\<close> is a Python float, each scalar is converted to the dtype of the tensors,
  and the two products and the sum are rounded to it.
\<close>

definition mix :: "arith \<Rightarrow> real \<Rightarrow> fp tensor \<Rightarrow> fp tensor \<Rightarrow> fp tensor" where
  "mix A alpha t1 t2 =
     \<lparr>shape = shape t1,
      vals = map2 (\<lambda>x y. fl_add (round_tensor A)
                      (fl_mul (round_tensor A) x (fl_round (round_tensor A) (round_double A (1 - alpha))))
                      (fl_mul (round_tensor A) y (fl_round (round_tensor A) (Fin alpha))))
               (vals t1) (vals t2)\<rparr>"



section \<open>Example inputs\<close>

text \<open>
  Two arithmetics: the exact one, which rounds nothing, and a format of small range, in
  which a result beyond 100 in absolute value overflows and a result below 1/100 in
  absolute value underflows to 0. Then a one-dimensional tensor, a
  model with the given named parameters, a heap with two parameters of two entries each,
  a model without batch-norm modules, and collaborators, flags and a loader of two
  batches for the epoch functions.
\<close>

definition exact_arith :: arith where
  "exact_arith =
     \<lparr>round_tensor = Fin, round_double = Fin,
      tensor_sum = foldl (fl_add Fin) (Fin 0), py_sum = foldl (fl_add Fin) (Fin 0)\<rparr>"

definition small_range :: "real \<Rightarrow> fp" where
  "small_range x =
     (if 100 < x then PInf else if x < - 100 then NInf
      else if \<bar>x\<bar> < 1 / 100 then Fin 0 else Fin x)"

definition small_range_arith :: arith where
  "small_range_arith =
     \<lparr>round_tensor = small_range, round_double = small_range,
      tensor_sum = foldl (fl_add small_range) (Fin 0), py_sum = foldl (fl_add small_range) (Fin 0)\<rparr>"

definition vec :: "'a list \<Rightarrow> 'a tensor" where
  "vec xs = \<lparr>shape = [length xs], vals = xs\<rparr>"

definition net_of :: "(string \<times> param) list \<Rightarrow> model" where
  "net_of nps = \<lparr>named_parameters = nps, training = False, modules = []\<rparr>"


definition plain_net :: model where
  "plain_net = \<lparr>named_parameters = [(''fc.weight'', \<lparr>data = vec [Fin 1, Fin 2], grad = None\<rparr>)],
                training = False, modules = [OtherModule, OtherModule]\<rparr>"

definition demo_collab :: "(nat, unit, nat) collaborators" where
  "demo_collab =
     \<lparr>criterion = (\<lambda>m b red. (2, ())),
      loss_backward = (\<lambda>m b red c. m),
      optimizer_step = (\<lambda>opt m. (opt + 1, m)),
      optimizer_zero_grad = (\<lambda>opt m. m),
      num_correct = (\<lambda>out b. 1),
      size0 = (\<lambda>b. b),
      to_cuda = (\<lambda>b. b),
      arithmetic = exact_arith\<rparr>"

definition demo_flags :: flags where
  "demo_flags =
     \<lparr>cuda = False, regression = False, verbose = False, subset_arg = None, fbgd = False,
      save_freq_int = 0, epoch = Some 7, output_dir = Some ''out'', si_pnorm_0 = None\<rparr>"

definition demo_loader :: "nat data_loader" where
  "demo_loader = \<lparr>batches = [4, 4], dataset_len = 8\<rparr>"

definition demo_net :: model where
  "demo_net = net_of [(''conv1.weight'', \<lparr>data = vec [Fin 3, Fin 4], grad = None\<rparr>)]"

text \<open>
  An arithmetic that is not exact and has no overflow or underflow: every result is too
  large by one part in a thousand, and the reductions add from the left.
\<close>

definition inflate :: "real \<Rightarrow> fp" where
  "inflate x = Fin (x * (1001 / 1000))"

definition inflating_arith :: arith where
  "inflating_arith =
     \<lparr>round_tensor = inflate, round_double = inflate,
      tensor_sum = foldl (fl_add inflate) (Fin 0), py_sum = foldl (fl_add inflate) (Fin 0)\<rparr>"

text \<open>
  A model with an SI parameter and another parameter, and a heap whose first parameter has
  an infinite entry.
\<close>

definition mixed_net :: model where
  "mixed_net = net_of [(''conv1.weight'', \<lparr>data = vec [Fin 3, Fin 4], grad = None\<rparr>),
                       (''fc.weight'', \<lparr>data = vec [Fin 2], grad = None\<rparr>)]"


section \<open>Properties of flatten and unflatten_like\<close>

lemma numel_view_column: "numel (view_column t) = numel t"
  by (simp add: view_column_def numel_def)

lemma torch_cat_columns:
  assumes "lst \<noteq> []"
  shows "torch_cat (map view_column lst) =
           Returns \<lparr>shape = [sum_list (map numel lst), 1], vals = concat (map vals lst)\<rparr>"
proof -
  obtain t ts where lst: "lst = t # ts"
    using assms by (cases lst) auto
  show ?thesis
    unfolding torch_cat_def lst by (simp add: view_column_def o_def)
qed

lemma flatten_nonempty:
  assumes "lst \<noteq> []"
  shows "flatten lst = Returns \<lparr>shape = [sum_list (map numel lst)], vals = concat (map vals lst)\<rparr>"
  by (simp add: flatten_def torch_cat_columns [OF assms] view_flat_def numel_def)

lemma slice_cols_row:
  "slice_cols \<lparr>shape = [1, length (p @ x @ s)], vals = p @ x @ s\<rparr> (length p) (length p + length x)
     = Returns \<lparr>shape = [1, length x], vals = x\<rparr>"
  by (simp add: slice_cols_def Let_def)

lemma unflatten_loop_suffix:
  assumes "\<forall>t \<in> set ts. wf_tensor t"
  shows "unflatten_loop \<lparr>shape = [1, length (p @ concat (map vals ts))], vals = p @ concat (map vals ts)\<rparr>
           (length p) ts out = Returns (out @ ts)"
  using assms
proof (induction ts arbitrary: p out)
  case Nil
  then show ?case by simp
next
  case (Cons t ts)
  let ?rest = "concat (map vals ts)"
  have n: "numel t = length (vals t)"
    using Cons.prems by (simp add: wf_tensor_def)
  have sl: "slice_cols \<lparr>shape = [1, length (p @ vals t @ ?rest)], vals = p @ vals t @ ?rest\<rparr>
              (length p) (length p + length (vals t)) = Returns \<lparr>shape = [1, length (vals t)], vals = vals t\<rparr>"
    by (rule slice_cols_row)
  have vw: "tensor_view \<lparr>shape = [1, length (vals t)], vals = vals t\<rparr> (shape t) = Returns t"
    using n by (simp add: tensor_view_def numel_def)
  have ih: "unflatten_loop \<lparr>shape = [1, length ((p @ vals t) @ ?rest)], vals = (p @ vals t) @ ?rest\<rparr>
              (length (p @ vals t)) ts (out @ [t]) = Returns ((out @ [t]) @ ts)"
    using Cons.prems by (intro Cons.IH) simp
  show ?case
    using sl vw ih by (simp add: n)
qed

text \<open>
  C6, first part. \<open>flatten\<close> of the empty list does not return: \<^verbatim>\<open>torch.cat\<close> refuses an
  empty list of tensors, so the round trip is not available there.
\<close>

theorem flatten_empty_list_raises:
  "flatten [] = Raises RuntimeError
   \<and> and_then (flatten []) (\<lambda>f. unflatten_like (reshape_row f) []) = Raises RuntimeError"
  by (simp add: flatten_def torch_cat_def)

text \<open>
  C6, as amended. For every non-empty list of tensors, \<open>flatten\<close> returns the
  one-dimensional tensor whose entries are the tensors' entries in list order, each
  tensor contributing its \<open>numel\<close> entries, and \<open>unflatten_like\<close> applied to that result
  reshaped to one row, with the original tensors as templates, returns the original
  list.
\<close>

theorem flatten_unflatten_roundtrip:
  assumes "lst \<noteq> []" and "\<forall>t \<in> set lst. wf_tensor t"
  shows "flatten lst = Returns \<lparr>shape = [sum_list (map numel lst)], vals = concat (map vals lst)\<rparr>
       \<and> (\<forall>t \<in> set lst. length (vals t) = numel t)
       \<and> and_then (flatten lst) (\<lambda>f. unflatten_like (reshape_row f) lst) = Returns lst"
proof -
  let ?v = "concat (map vals lst)"
  have len: "sum_list (map numel lst) = length ?v"
    using assms(2) by (induction lst) (auto simp: wf_tensor_def)
  have "unflatten_loop \<lparr>shape = [1, length ([] @ ?v)], vals = [] @ ?v\<rparr> (length ([] :: 'a list)) lst []
          = Returns ([] @ lst)"
    using assms(2) by (rule unflatten_loop_suffix)
  then have "unflatten_like \<lparr>shape = [1, length ?v], vals = ?v\<rparr> lst = Returns lst"
    by (simp add: unflatten_like_def)
  then show ?thesis
    using assms(2) by (simp add: flatten_nonempty [OF assms(1)] reshape_row_def numel_def len wf_tensor_def)
qed

theorem flatten_unflatten_roundtrip_witness:
  "flatten [\<lparr>shape = [2, 1], vals = [1, 2]\<rparr>, \<lparr>shape = [], vals = [3]\<rparr>]
     = Returns \<lparr>shape = [3], vals = [1, 2, 3]\<rparr>
   \<and> and_then (flatten [\<lparr>shape = [2, 1], vals = [1, 2]\<rparr>, \<lparr>shape = [], vals = [3]\<rparr>])
        (\<lambda>f. unflatten_like (reshape_row f) [\<lparr>shape = [2, 1], vals = [1, 2]\<rparr>, \<lparr>shape = [], vals = [3]\<rparr>])
     = Returns [\<lparr>shape = [2, 1], vals = [1, 2]\<rparr>, \<lparr>shape = [], vals = [3]\<rparr>]"
  using flatten_unflatten_roundtrip [of "[\<lparr>shape = [2, 1], vals = [1, 2 :: 'a]\<rparr>, \<lparr>shape = [], vals = [3]\<rparr>]"]
    flatten_unflatten_roundtrip [of "[\<lparr>shape = [2, 1], vals = [1, 2 :: 'b]\<rparr>, \<lparr>shape = [], vals = [3]\<rparr>]"]
  by (auto simp: wf_tensor_def numel_def)

section \<open>Properties of tensor arithmetic\<close>

lemma broadcast_dims_same: "broadcast_dims xs xs = Some xs"
  by (induction xs) auto

lemma broadcast_shape_same: "broadcast_shape s s = Some s"
  by (simp add: broadcast_shape_def broadcast_dims_same)

lemma concat_chunks:
  "length v = r * n \<Longrightarrow> concat (map (\<lambda>k. take n (drop (k * n) v)) [0..<r]) = v"
proof (induction r arbitrary: v rule: nat_induct)
  case 0
  then show ?case by simp
next
  case (Suc r)
  have "concat (map (\<lambda>k. take n (drop (k * n) v)) [0..<Suc r])
      = concat (map (\<lambda>k. take n (drop (k * n) v)) [0..<r]) @ take n (drop (r * n) v)"
    by simp
  also have "concat (map (\<lambda>k. take n (drop (k * n) v)) [0..<r])
      = concat (map (\<lambda>k. take n (drop (k * n) (take (r * n) v))) [0..<r])"
  proof -
    have "\<And>k. k < r \<Longrightarrow> take n (drop (k * n) (take (r * n) v)) = take n (drop (k * n) v)"
    proof -
      fix k assume "k < r"
      then have "Suc k \<le> r" by simp
      then have "Suc k * n \<le> r * n" by (rule mult_le_mono1)
      then have "n \<le> r * n - k * n" by simp
      then show "take n (drop (k * n) (take (r * n) v)) = take n (drop (k * n) v)"
        by (simp add: drop_take min_absorb1)
    qed
    then show ?thesis by (auto intro!: arg_cong [where f = concat])
  qed
  also have "concat (map (\<lambda>k. take n (drop (k * n) (take (r * n) v))) [0..<r]) = take (r * n) v"
    using Suc.prems by (intro Suc.IH) simp
  also have "take n (drop (r * n) v) = drop (r * n) v"
    using Suc.prems by simp
  finally show ?case by simp
qed

lemma expand_same: "length v = prod_list s \<Longrightarrow> expand s s v = v"
proof (induction s arbitrary: v)
  case Nil
  then show ?case by simp
next
  case (Cons r rs)
  have "\<And>k. k < r \<Longrightarrow> expand rs rs (take (prod_list rs) (drop (k * prod_list rs) v))
                          = take (prod_list rs) (drop (k * prod_list rs) v)"
  proof -
    fix k assume "k < r"
    then have "Suc k \<le> r" by simp
    then have "Suc k * prod_list rs \<le> r * prod_list rs" by (rule mult_le_mono1)
    then have "prod_list rs \<le> length v - k * prod_list rs"
      using Cons.prems by simp
    then show "expand rs rs (take (prod_list rs) (drop (k * prod_list rs) v))
                 = take (prod_list rs) (drop (k * prod_list rs) v)"
      by (intro Cons.IH) simp
  qed
  then have "expand (r # rs) (r # rs) v
           = concat (map (\<lambda>k. take (prod_list rs) (drop (k * prod_list rs) v)) [0..<r])"
    by (auto intro!: arg_cong [where f = concat])
  also have "\<dots> = v"
    using Cons.prems by (intro concat_chunks) simp
  finally show ?case .
qed

lemma broadcast_to_same: "wf_tensor t \<Longrightarrow> broadcast_to (shape t) t = vals t"
  by (simp add: broadcast_to_def wf_tensor_def numel_def expand_same)

lemma tensor_add_same_shape:
  "wf_tensor a \<Longrightarrow> wf_tensor b \<Longrightarrow> shape a = shape b \<Longrightarrow>
     tensor_add A a b = Returns \<lparr>shape = shape a, vals = map2 (fl_add (round_tensor A)) (vals a) (vals b)\<rparr>"
  using broadcast_to_same [of a] broadcast_to_same [of b]
  by (simp add: tensor_add_def broadcast_shape_same)



section \<open>Properties of bn_update\<close>

lemma check_bn_fold: "fold check_bn_module ms flag = (flag \<or> (\<exists>x \<in> set ms. is_bn x))"
  by (induction ms arbitrary: flag) (auto simp: check_bn_module_def)

text \<open>
  C9. For a model none of whose modules is a batch-norm module, \<open>bn_update\<close> returns at
  once: the model it leaves is the model it was given (parameters, running statistics,
  momenta and mode), and no batch was passed forward.
\<close>

theorem bn_update_without_batchnorm:
  assumes "\<forall>x \<in> set (modules m). \<not> is_bn x"
  shows "bn_update fwd sz loader m v sub = Returns (m, [])"
  using assms by (simp add: bn_update_def check_bn_def check_bn_fold)

text \<open>
  C9 at a model of two modules, neither a batch-norm module, with a forward pass that
  would change the model if it ran.
\<close>

theorem bn_update_without_batchnorm_witness:
  "bn_update (\<lambda>m b. m\<lparr>training := False\<rparr>) (\<lambda>b. b) \<lparr>batches = [4, 4, 2 :: nat], dataset_len = 10\<rparr> plain_net True None
     = Returns (plain_net, [])"
  using bn_update_without_batchnorm [of plain_net "\<lambda>m b. m\<lparr>training := False\<rparr>" "\<lambda>b. b"
      "\<lparr>batches = [4, 4, 2 :: nat], dataset_len = 10\<rparr>" True None]
  by (simp add: plain_net_def)

section \<open>Properties of the epoch functions\<close>

lemmas epoch_defs =
  train_epoch_def SAM_train_epoch_def wrap_loader_def start_epoch_def zero_grad_first_def
  train_batch_def SAM_train_batch_def train_update_def SAM_update_def SAM_second_pass_def
  fbgd_backward_def step_and_zero_def si_fix_in_loop_def si_fix_after_loop_def fbgd_tail_def
  epoch_return_def count_batch_def report_stage_def save_stage_def save_checkpoint_int_def
  get_params_data_def enumerate_eq_zip Let_def

lemmas demo_defs = demo_collab_def demo_flags_def demo_loader_def demo_net_def


lemma and_then_Returns_iff: "and_then x f = Returns y \<longleftrightarrow> (\<exists>a. x = Returns a \<and> f a = Returns y)"
  by (cases x) auto

lemma SAM_update_raises:
  "SAM_update C fl r alpha ld red b st = Raises (NameError ''get_params_data'')"
  by (simp add: SAM_update_def get_params_data_def split_def Let_def)

lemma SAM_train_batch_raises:
  "SAM_train_batch C fl r alpha num_batches ld red (i, b) st = Raises (NameError ''get_params_data'')"
  by (simp add: SAM_train_batch_def SAM_update_raises Let_def)

text \<open>
  C1. The body of the loop of \<open>SAM_train_epoch\<close> does not get past the first backward pass:
  for every batch and every state the snapshot step raises \<open>NameError\<close>, so there is no
  gradient norm, no ascent step and no second forward pass.
\<close>

theorem SAM_batch_raises_NameError:
  "SAM_update C fl r alpha ld red b st = Raises (NameError ''get_params_data'')
   \<and> SAM_train_batch C fl r alpha num_batches ld red (i, b) st = Raises (NameError ''get_params_data'')"
  by (simp add: SAM_train_batch_raises SAM_update_raises)

lemma wrap_loader_no_subset:
  "wrap_loader loader None v = Returns (int (length (batches loader)), if v then Tqdm (batches loader) else DataLoader loader)"
  by (simp add: wrap_loader_def)

lemma items_wrapped: "items (if v then Tqdm (batches loader) else DataLoader loader) = batches loader"
  by simp

lemma SAM_train_epoch_first_batch_raises:
  assumes "subset_arg fl = None" and "batches loader = b # bs"
  shows "SAM_train_epoch C loader m opt r alpha fl = Raises (NameError ''get_params_data'')"
  using assms
  by (simp add: SAM_train_epoch_def wrap_loader_no_subset Let_def enumerate_eq_zip upt_rec
      SAM_train_batch_raises del: upt.simps)


text \<open>
  C5. \<open>SAM_train_epoch\<close> over 100 batches with \<open>save_freq_int = 4\<close> writes no checkpoint: it
  raises \<open>NameError\<close> in the first batch, whatever the collaborators are.
\<close>

theorem SAM_train_epoch_writes_no_checkpoint:
  "SAM_train_epoch C \<lparr>batches = replicate 100 b, dataset_len = n\<rparr> m opt r alpha
     (fl\<lparr>subset_arg := None, save_freq_int := 4\<rparr>) = Raises (NameError ''get_params_data'')"
proof -
  have "replicate 100 b = b # replicate 99 b"
    by (simp add: numeral_eq_Suc)
  then show ?thesis
    by (intro SAM_train_epoch_first_batch_raises) simp_all
qed

lemma fbgd_tail_raises:
  "fbgd fl \<Longrightarrow> si_pnorm_0 fl = Some t \<Longrightarrow> fbgd_tail C fl st = Raises (NameError ''model_name'')"
  by (simp add: fbgd_tail_def si_fix_after_loop_def)

lemma fbgd_tail_returns:
  "fbgd fl \<Longrightarrow> si_pnorm_0 fl = None \<Longrightarrow> fbgd_tail C fl st = Returns (step_and_zero C st)"
  by (simp add: fbgd_tail_def si_fix_after_loop_def)

lemma train_epoch_fbgd_si_never_returns:
  assumes "fbgd fl" and "si_pnorm_0 fl = Some t"
  shows "train_epoch C loader m opt fl \<noteq> Returns x"
  using assms
  by (auto simp: train_epoch_def Let_def and_then_Returns_iff fbgd_tail_raises)

lemma SAM_train_epoch_fbgd_si_never_returns:
  assumes "fbgd fl" and "si_pnorm_0 fl = Some t"
  shows "SAM_train_epoch C loader m opt r alpha fl \<noteq> Returns x"
  using assms
  by (auto simp: SAM_train_epoch_def Let_def and_then_Returns_iff fbgd_tail_raises)

text \<open>
  C3. With \<open>fbgd\<close> and a value for \<open>si_pnorm_0\<close>, \<open>train_epoch\<close> raises \<open>NameError\<close> after the
  loop instead of rescaling the SI parameters and returning, and so does
  \<open>SAM_train_epoch\<close> when its loop has no batch; with \<open>fbgd\<close> and no \<open>si_pnorm_0\<close> the run
  ends with one \<open>optimizer.step()\<close> and one \<open>optimizer.zero_grad()\<close>.
\<close>

theorem fbgd_si_fix_raises_NameError:
  "train_epoch demo_collab demo_loader demo_net 0 (demo_flags\<lparr>fbgd := True, si_pnorm_0 := Some 5\<rparr>)
     = Raises (NameError ''model_name'')
   \<and> SAM_train_epoch demo_collab \<lparr>batches = [], dataset_len = 0\<rparr> demo_net 0 (1 / 10) 1
        (demo_flags\<lparr>fbgd := True, si_pnorm_0 := Some 5\<rparr>)
     = Raises (NameError ''model_name'')
   \<and> and_then (train_epoch demo_collab demo_loader demo_net 0 (demo_flags\<lparr>fbgd := True\<rparr>))
        (\<lambda>(res, st). Returns (calls st))
     = Returns [ModelTrain, ZeroGrad, Forward, Backward, Forward, Backward, OptimizerStep, ZeroGrad]"
  by (simp add: epoch_defs demo_defs upt_rec)

lemma train_epoch_fbgd_verbose_raises:
  assumes "fbgd fl" and "verbose fl" and "subset_arg fl = None" and "batches loader = b # bs"
  shows "train_epoch C loader m opt fl = Raises (AttributeError ''dataset'')"
  using assms
  by (simp add: train_epoch_def wrap_loader_no_subset Let_def enumerate_eq_zip upt_rec
      train_batch_def train_update_def fbgd_backward_def split_def del: upt.simps)

text \<open>
  C8. With \<open>fbgd\<close>, the same input returns a result when \<open>verbose\<close> is off and raises
  \<open>AttributeError\<close> when it is on: the loop reads \<^verbatim>\<open>loader.dataset\<close> after \<open>loader\<close> has been
  rebound to the \<open>tqdm\<close> wrapper.
\<close>

theorem verbose_changes_fbgd_run:
  "train_epoch demo_collab demo_loader demo_net 0 (demo_flags\<lparr>fbgd := True, verbose := True\<rparr>)
     = Raises (AttributeError ''dataset'')
   \<and> and_then (train_epoch demo_collab demo_loader demo_net 0 (demo_flags\<lparr>fbgd := True, verbose := False\<rparr>))
        (\<lambda>(res, st). Returns (loss res, accuracy res))
     = Returns (1 / 2, Some 25)"
  by (simp add: epoch_defs demo_defs upt_rec)

section \<open>Mid-epoch checkpoints of train_epoch\<close>

lemma ge_quotient_iff:
  fixes a k N :: int
  assumes "0 < N"
  shows "real_of_int k \<le> real_of_int a / real_of_int N \<longleftrightarrow> k \<le> a div N"
  by (metis floor_divide_of_int_eq le_floor_iff)

lemma segment_arith:
  fixes s N i j :: int
  assumes "0 < s" and "s \<le> N" and "0 \<le> i" and "j = min (s - 1) (s * i div N)"
  shows "(j + 1 \<le> s * (i + 1) div N \<and> j + 1 < s \<longrightarrow> min (s - 1) (s * (i + 1) div N) = j + 1)
       \<and> (\<not> (j + 1 \<le> s * (i + 1) div N \<and> j + 1 < s) \<longrightarrow> min (s - 1) (s * (i + 1) div N) = j)"
proof -
  have N: "0 < N" using assms by simp
  have "s * i \<le> s * (i + 1)"
    using assms(1) by (simp add: algebra_simps)
  then have lo: "s * i div N \<le> s * (i + 1) div N"
    using N by (rule zdiv_mono1)
  have "s * (i + 1) \<le> s * i + N"
    using assms(2) by (simp add: algebra_simps)
  then have "s * (i + 1) div N \<le> (s * i + N) div N"
    using N by (rule zdiv_mono1)
  also have "(s * i + N) div N = s * i div N + 1"
    using N by simp
  finally have hi: "s * (i + 1) div N \<le> s * i div N + 1" .
  show ?thesis
    using lo hi assms(4) by (auto simp: min_def)
qed

lemma train_update_frame:
  assumes "train_update C fl ld red b st = Returns (out, st')"
  shows "save_ind st' = save_ind st \<and> checkpoints st' = checkpoints st"
  using assms
  by (auto simp: train_update_def fbgd_backward_def step_and_zero_def si_fix_in_loop_def
      and_then_Returns_iff Let_def split_def split: if_splits option.splits)

lemma count_batch_frame:
  "save_ind (count_batch C fl out b st) = save_ind st
   \<and> checkpoints (count_batch C fl out b st) = checkpoints st"
  by (simp add: count_batch_def Let_def)

lemma report_stage_frame:
  assumes "report_stage fl num_batches i st = Returns st'"
  shows "save_ind st' = save_ind st \<and> checkpoints st' = checkpoints st"
  using assms by (auto simp: report_stage_def split: if_splits)


lemma save_stage_step:
  assumes ret: "save_stage fl N i st = Returns st'"
    and s: "0 < save_freq_int fl" "save_freq_int fl \<le> N"
    and ind: "save_ind st = min (save_freq_int fl - 1) (save_freq_int fl * int i div N)"
    and seg: "segments_saved fl st"
  shows "save_ind st' = min (save_freq_int fl - 1) (save_freq_int fl * (int i + 1) div N)
       \<and> segments_saved fl st'"
proof -
  let ?s = "save_freq_int fl"
  have N: "0 < N" using s by simp
  have i0: "0 \<le> int i" by simp
  note ar = segment_arith [OF s(1) s(2) i0 ind]
  have nonneg: "0 \<le> save_ind st"
    using ind s N by (simp add: min_def pos_imp_zdiv_nonneg_iff)
  show ?thesis
  proof (cases "save_ind st + 1 \<le> ?s * (int i + 1) div N \<and> save_ind st + 1 < ?s")
    case True
    then have cond: "real_of_int (?s * (int i + 1)) / real_of_int N \<ge> real_of_int (save_ind st + 1)
                     \<and> save_ind st + 1 < ?s"
      using ge_quotient_iff [OF N, of "save_ind st + 1" "?s * (int i + 1)"] by blast
    from ret cond s N obtain ck where ck:
        "save_checkpoint_int (output_dir fl) (epoch fl) (save_ind st + 1) (net st) (optim st) = Returns ck"
        "st' = st\<lparr>checkpoints := checkpoints st @ [ck], save_ind := save_ind st + 1\<rparr>"
      by (auto simp: save_stage_def and_then_Returns_iff)
    from ck(1) have ckp: "ckpt_index ck = save_ind st + 1" "epoch fl = Some (ckpt_epoch ck)"
        "output_dir fl = Some (ckpt_dir ck)"
      by (auto simp: save_checkpoint_int_def split: option.splits)
    have "[1..save_ind st + 1] = [1..save_ind st] @ [save_ind st + 1]"
      using nonneg by (simp add: upto_rec2)
    then have "segments_saved fl st'"
      using seg ck(2) ckp by (auto simp: segments_saved_def)
    moreover have "save_ind st' = min (?s - 1) (?s * (int i + 1) div N)"
      using ar True ck(2) by simp
    ultimately show ?thesis by simp
  next
    case False
    then have cond: "\<not> (real_of_int (?s * (int i + 1)) / real_of_int N \<ge> real_of_int (save_ind st + 1)
                     \<and> save_ind st + 1 < ?s)"
      using ge_quotient_iff [OF N, of "save_ind st + 1" "?s * (int i + 1)"] by blast
    from ret cond s N have "st' = st"
      by (auto simp: save_stage_def split: if_splits)
    then show ?thesis
      using ar False seg by simp
  qed
qed

lemma train_batch_step:
  assumes ret: "train_batch C fl N ld red (i, b) st = Returns st'"
    and s: "0 < save_freq_int fl" "save_freq_int fl \<le> N"
    and ind: "save_ind st = min (save_freq_int fl - 1) (save_freq_int fl * int i div N)"
    and seg: "segments_saved fl st"
  shows "save_ind st' = min (save_freq_int fl - 1) (save_freq_int fl * (int i + 1) div N)
       \<and> segments_saved fl st'"
proof -
  let ?b = "if cuda fl then to_cuda C b else b"
  from ret obtain out st1 st2 where
      u: "train_update C fl ld red ?b st = Returns (out, st1)"
      and r: "report_stage fl N i (count_batch C fl out ?b st1) = Returns st2"
      and sv: "save_stage fl N i st2 = Returns st'"
    by (auto simp: train_batch_def Let_def and_then_Returns_iff)
  have same: "save_ind st2 = save_ind st" "checkpoints st2 = checkpoints st"
    using train_update_frame [OF u] report_stage_frame [OF r] count_batch_frame [of C fl out ?b st1]
    by simp_all
  then have "save_ind st2 = min (save_freq_int fl - 1) (save_freq_int fl * int i div N)"
      "segments_saved fl st2"
    using ind seg by (simp_all add: segments_saved_def)
  with sv s show ?thesis
    by (intro save_stage_step)
qed

lemma train_loop_segments:
  assumes "for_loop (train_batch C fl N ld red) (enumerate k xs) st = Returns st'"
    and "0 < save_freq_int fl" "save_freq_int fl \<le> N"
    and "save_ind st = min (save_freq_int fl - 1) (save_freq_int fl * int k div N)"
    and "segments_saved fl st"
  shows "save_ind st' = min (save_freq_int fl - 1) (save_freq_int fl * int (k + length xs) div N)
       \<and> segments_saved fl st'"
  using assms
proof (induction xs arbitrary: k st)
  case Nil
  then show ?case by simp
next
  case (Cons x xs)
  from Cons.prems(1) obtain st1 where
      b: "train_batch C fl N ld red (k, x) st = Returns st1"
      and l: "for_loop (train_batch C fl N ld red) (enumerate (Suc k) xs) st1 = Returns st'"
    by (auto simp: and_then_Returns_iff)
  from train_batch_step [OF b Cons.prems(2,3,4,5)]
  have "save_ind st1 = min (save_freq_int fl - 1) (save_freq_int fl * int (Suc k) div N)"
      "segments_saved fl st1"
    by (simp_all add: add.commute)
  from Cons.IH [OF l Cons.prems(2,3) this] show ?case
    by simp
qed


lemma fbgd_tail_frame:
  assumes "fbgd_tail C fl st = Returns st'"
  shows "save_ind st' = save_ind st \<and> checkpoints st' = checkpoints st"
  using assms
  by (auto simp: fbgd_tail_def si_fix_after_loop_def step_and_zero_def split_def Let_def
      split: if_splits option.splits)

lemma train_epoch_mid_epoch_checkpoints:
  assumes ret: "train_epoch C loader m opt fl = Returns (res, st)"
    and sub: "subset_arg fl = None"
    and s: "0 < save_freq_int fl" "save_freq_int fl \<le> int (length (batches loader))"
  shows "map ckpt_index (checkpoints st) = [1..save_freq_int fl - 1]
       \<and> (\<forall>ck \<in> set (checkpoints st). epoch fl = Some (ckpt_epoch ck) \<and> output_dir fl = Some (ckpt_dir ck))"
proof -
  let ?N = "int (length (batches loader))"
  let ?ld = "if verbose fl then Tqdm (batches loader) else DataLoader loader"
  let ?red = "if fbgd fl then Sum else Mean"
  let ?st1 = "zero_grad_first C (start_epoch C m opt)"
  from ret sub obtain st2 st3 where
      lp: "for_loop (train_batch C fl ?N ?ld ?red) (enumerate 0 (batches loader)) ?st1 = Returns st2"
      and tl: "fbgd_tail C fl st2 = Returns st3"
      and er: "epoch_return C fl st3 = Returns (res, st)"
    by (cases "verbose fl") (auto simp: train_epoch_def wrap_loader_no_subset Let_def and_then_Returns_iff)
  have init: "save_ind ?st1 = min (save_freq_int fl - 1) (save_freq_int fl * int 0 div ?N)"
      "segments_saved fl ?st1"
    using s by (simp_all add: zero_grad_first_def start_epoch_def segments_saved_def)
  from train_loop_segments [OF lp s init]
  have "save_ind st2 = min (save_freq_int fl - 1) (save_freq_int fl * ?N div ?N)" "segments_saved fl st2"
    by simp_all
  moreover have "?N \<noteq> 0"
    using s by linarith
  then have "save_freq_int fl * ?N div ?N = save_freq_int fl"
    by (rule nonzero_mult_div_cancel_right)
  ultimately have st2: "save_ind st2 = save_freq_int fl - 1" "segments_saved fl st2"
    by simp_all
  from er have "st = st3"
    by (auto simp: epoch_return_def split: if_splits)
  with fbgd_tail_frame [OF tl] st2 show ?thesis
    by (simp add: segments_saved_def)
qed

lemma train_epoch_hundred_batches_four_segments:
  "and_then (train_epoch demo_collab \<lparr>batches = replicate 100 1, dataset_len = 100\<rparr> demo_net 0
              (demo_flags\<lparr>save_freq_int := 4\<rparr>))
     (\<lambda>(res, st). Returns (map ckpt_index (checkpoints st))) = Returns [1, 2, 3]"
  by (simp add: epoch_defs demo_defs upt_rec numeral_eq_Suc)


section \<open>The optimizer calls of train_epoch under fbgd\<close>

lemma train_batch_fbgd_calls:
  assumes "fbgd fl" and "train_batch C fl N ld red (i, b) st = Returns st'"
  shows "calls st' = calls st @ [Forward, Backward]"
  using assms
  by (auto simp: train_batch_def train_update_def fbgd_backward_def count_batch_def report_stage_def
      save_stage_def and_then_Returns_iff Let_def split_def split: if_splits)

lemma train_loop_fbgd_calls:
  assumes "fbgd fl" and "for_loop (train_batch C fl N ld red) (enumerate k xs) st = Returns st'"
  shows "calls st' = calls st @ concat (replicate (length xs) [Forward, Backward])"
  using assms(2)
proof (induction xs arbitrary: k st)
  case Nil
  then show ?case by simp
next
  case (Cons x xs)
  from Cons.prems obtain st1 where
      b: "train_batch C fl N ld red (k, x) st = Returns st1"
      and l: "for_loop (train_batch C fl N ld red) (enumerate (Suc k) xs) st1 = Returns st'"
    by (auto simp: and_then_Returns_iff)
  from train_batch_fbgd_calls [OF assms(1) b] Cons.IH [OF l] show ?case
    by simp
qed

lemma train_epoch_fbgd_one_step:
  assumes ret: "train_epoch C loader m opt fl = Returns (res, st)" and f: "fbgd fl"
  shows "si_pnorm_0 fl = None
       \<and> (\<exists>n. calls st = [ModelTrain, ZeroGrad] @ concat (replicate n [Forward, Backward])
                            @ [OptimizerStep, ZeroGrad])"
proof -
  have none: "si_pnorm_0 fl = None"
    using train_epoch_fbgd_si_never_returns [OF f, of _ C loader m opt "(res, st)"] ret
    by (cases "si_pnorm_0 fl") auto
  from ret obtain N ld st2 st3 where
      lp: "for_loop (train_batch C fl N ld (if fbgd fl then Sum else Mean)) (enumerate 0 (items ld))
             (zero_grad_first C (start_epoch C m opt)) = Returns st2"
      and tl: "fbgd_tail C fl st2 = Returns st3"
      and er: "epoch_return C fl st3 = Returns (res, st)"
    by (auto simp: train_epoch_def Let_def and_then_Returns_iff)
  have "calls st2 = [ModelTrain, ZeroGrad] @ concat (replicate (length (items ld)) [Forward, Backward])"
    using train_loop_fbgd_calls [OF f lp] by (simp add: zero_grad_first_def start_epoch_def)
  moreover have "st3 = step_and_zero C st2"
    using tl fbgd_tail_returns [OF f none, of C st2] by simp
  moreover have "st = st3"
    using er by (auto simp: epoch_return_def split: if_splits)
  ultimately have "calls st = [ModelTrain, ZeroGrad] @ concat (replicate (length (items ld)) [Forward, Backward])
                              @ [OptimizerStep, ZeroGrad]"
    by (simp add: step_and_zero_def split_def Let_def)
  with none show ?thesis by blast
qed

section \<open>fix_si_pnorm at norm zero\<close>

lemma is_si_examples:
  "is_si ''conv1.weight''" "\<not> is_si ''fc.weight''"
  by (simp_all add: is_si_def)

lemma inf_of_sign_not_fin: "\<not> is_fin (inf_of_sign s)"
  by (simp add: inf_of_sign_def)

lemma fl_mul_nonfinite: "\<not> is_fin c \<Longrightarrow> \<not> is_fin (fl_mul r x c)"
  by (cases x; cases c) (simp_all add: inf_of_sign_not_fin)

lemma fl_round_nonfinite: "\<not> is_fin c \<Longrightarrow> fl_round r c = c"
  by (cases c) simp_all

lemma truediv_by_numpy_zero:
  "truediv r (PyFloat (Fin t)) (NpFloat64 (Fin 0)) = Returns (NpFloat64 (inf_of_sign (sgn t)))"
  by simp

text \<open>
  C7, as amended. When the SI norm that \<open>fix_si_pnorm\<close> computes is 0, the call raises
  nothing: the norm is a numpy \<open>float64\<close>, so \<^verbatim>\<open>si_pnorm_0 / si_pnorm\<close> is numpy's division,
  which gives an infinity or \<open>nan\<close>, and the call returns a model. In that model the names
  and the order of the parameters are as before, every entry of every SI parameter is an
  infinity or \<open>nan\<close> (and each SI parameter has as many entries as before), and every other
  parameter is unchanged. In particular a model without SI entries is returned unchanged.
\<close>

theorem fix_si_pnorm_zero_norm:
  assumes "get_si_params_norm A m = NpFloat64 (Fin 0)"
  shows "\<exists>m'. fix_si_pnorm A m target = Returns m'
          \<and> length (named_parameters m') = length (named_parameters m)
          \<and> (\<forall>i < length (named_parameters m).
                fst (named_parameters m' ! i) = fst (named_parameters m ! i)
                \<and> (if is_si (fst (named_parameters m ! i))
                    then (\<forall>x \<in> set (vals (data (snd (named_parameters m' ! i)))). \<not> is_fin x)
                       \<and> length (vals (data (snd (named_parameters m' ! i))))
                           = length (vals (data (snd (named_parameters m ! i))))
                    else named_parameters m' ! i = named_parameters m ! i))"
proof -
  let ?c = "inf_of_sign (sgn target)"
  let ?f = "\<lambda>(n, p). if is_si n then (n, p\<lparr>data := scale A ?c (data p)\<rparr>) else (n, p)"
  let ?m' = "m\<lparr>named_parameters := map ?f (named_parameters m)\<rparr>"
  from assms have norm: "fl_sqrt (round_double A) (reduce_sum (py_sum A) (map (sq_sum A) (si_tensors m))) = Fin 0"
    by (simp add: get_si_params_norm_def)
  have ret: "fix_si_pnorm A m target = Returns ?m'"
    by (simp add: fix_si_pnorm_def norm split_def)
  have entries: "\<forall>x \<in> set (vals (scale A ?c t)). \<not> is_fin x" for t
    by (auto simp: scale_def fl_round_nonfinite inf_of_sign_not_fin fl_mul_nonfinite)
  have each: "\<forall>i < length (named_parameters m).
                fst (named_parameters ?m' ! i) = fst (named_parameters m ! i)
                \<and> (if is_si (fst (named_parameters m ! i))
                    then (\<forall>x \<in> set (vals (data (snd (named_parameters ?m' ! i)))). \<not> is_fin x)
                       \<and> length (vals (data (snd (named_parameters ?m' ! i))))
                           = length (vals (data (snd (named_parameters m ! i))))
                    else named_parameters ?m' ! i = named_parameters m ! i)"
  proof (intro allI impI)
    fix i assume i: "i < length (named_parameters m)"
    obtain n p where np: "named_parameters m ! i = (n, p)" by (cases "named_parameters m ! i") auto
    have nth: "named_parameters ?m' ! i = ?f (n, p)"
      using i np by simp
    show "fst (named_parameters ?m' ! i) = fst (named_parameters m ! i)
                \<and> (if is_si (fst (named_parameters m ! i))
                    then (\<forall>x \<in> set (vals (data (snd (named_parameters ?m' ! i)))). \<not> is_fin x)
                       \<and> length (vals (data (snd (named_parameters ?m' ! i))))
                           = length (vals (data (snd (named_parameters m ! i))))
                    else named_parameters ?m' ! i = named_parameters m ! i)"
      unfolding nth np using entries [of "data p"] by (simp add: scale_def)
  qed
  have len: "length (named_parameters ?m') = length (named_parameters m)"
    by simp
  from ret len each show ?thesis
    by blast
qed

lemmas exact_defs = exact_arith_def reduce_sum_def sq_sum_def si_tensors_def scale_def
  get_si_params_norm_def fix_si_pnorm_def net_of_def vec_def inf_of_sign_def

text \<open>
  C7, the claim as stated fails: for an SI parameter with entries 0 and 0 and target 1,
  the norm is 0 and the call returns a model, whose SI entries are \<open>nan\<close> (0 times
  infinity); for a model without SI parameter the norm is 0 as well and the call returns
  the model as it was. No divide-by-zero error reaches the caller.
\<close>

theorem fix_si_pnorm_zero_norm_completes:
  "get_si_params_norm exact_arith (net_of [(''conv1.weight'', \<lparr>data = vec [Fin 0, Fin 0], grad = None\<rparr>)])
     = NpFloat64 (Fin 0)
   \<and> fix_si_pnorm exact_arith (net_of [(''conv1.weight'', \<lparr>data = vec [Fin 0, Fin 0], grad = None\<rparr>)]) 1
     = Returns (net_of [(''conv1.weight'', \<lparr>data = vec [NaN, NaN], grad = None\<rparr>)])
   \<and> get_si_params_norm exact_arith (net_of [(''fc.weight'', \<lparr>data = vec [Fin 2], grad = None\<rparr>)])
     = NpFloat64 (Fin 0)
   \<and> fix_si_pnorm exact_arith (net_of [(''fc.weight'', \<lparr>data = vec [Fin 2], grad = None\<rparr>)]) 1
     = Returns (net_of [(''fc.weight'', \<lparr>data = vec [Fin 2], grad = None\<rparr>)])"
  by (simp add: exact_defs is_si_examples)

text \<open>
  C7 at a model with an SI parameter of entries 0 and 0 and another parameter, in the
  arithmetic of small range, with target 3.
\<close>

theorem fix_si_pnorm_zero_norm_witness:
  "get_si_params_norm small_range_arith
      (net_of [(''conv1.weight'', \<lparr>data = vec [Fin 0, Fin 0], grad = None\<rparr>),
               (''fc.weight'', \<lparr>data = vec [Fin 2], grad = None\<rparr>)]) = NpFloat64 (Fin 0)
   \<and> (\<exists>m'. fix_si_pnorm small_range_arith
               (net_of [(''conv1.weight'', \<lparr>data = vec [Fin 0, Fin 0], grad = None\<rparr>),
                        (''fc.weight'', \<lparr>data = vec [Fin 2], grad = None\<rparr>)]) 3 = Returns m'
          \<and> \<not> is_fin (vals (data (snd (named_parameters m' ! 0))) ! 0)
          \<and> \<not> is_fin (vals (data (snd (named_parameters m' ! 0))) ! 1)
          \<and> named_parameters m' ! 1 = (''fc.weight'', \<lparr>data = vec [Fin 2], grad = None\<rparr>))"
proof -
  let ?m = "net_of [(''conv1.weight'', \<lparr>data = vec [Fin 0, Fin 0], grad = None\<rparr>),
                    (''fc.weight'', \<lparr>data = vec [Fin 2], grad = None\<rparr>)]"
  have z: "get_si_params_norm small_range_arith ?m = NpFloat64 (Fin 0)"
    by (simp add: small_range_arith_def small_range_def reduce_sum_def sq_sum_def si_tensors_def
        get_si_params_norm_def net_of_def vec_def is_si_examples)
  from fix_si_pnorm_zero_norm [OF z, of 3] obtain m' where m':
      "fix_si_pnorm small_range_arith ?m 3 = Returns m'"
      "\<forall>i < length (named_parameters ?m).
                fst (named_parameters m' ! i) = fst (named_parameters ?m ! i)
                \<and> (if is_si (fst (named_parameters ?m ! i))
                    then (\<forall>x \<in> set (vals (data (snd (named_parameters m' ! i)))). \<not> is_fin x)
                       \<and> length (vals (data (snd (named_parameters m' ! i))))
                           = length (vals (data (snd (named_parameters ?m ! i))))
                    else named_parameters m' ! i = named_parameters ?m ! i)"
    by blast
  from m'(2) [rule_format, of 0] m'(2) [rule_format, of 1]
  have "\<not> is_fin (vals (data (snd (named_parameters m' ! 0))) ! 0)
          \<and> \<not> is_fin (vals (data (snd (named_parameters m' ! 0))) ! 1)
          \<and> named_parameters m' ! 1 = (''fc.weight'', \<lparr>data = vec [Fin 2], grad = None\<rparr>)"
    by (simp add: net_of_def vec_def is_si_examples)
  with z m'(1) show ?thesis by blast
qed

section \<open>Properties of set_si_params_data\<close>

lemma for_each_Returns_all:
  "for_each f xs = Returns ys \<Longrightarrow> \<forall>x \<in> set xs. \<exists>y. f x = Returns y"
proof (induction xs arbitrary: ys)
  case Nil
  then show ?case by simp
next
  case (Cons x xs)
  then show ?case
    by (cases "f x"; cases "for_each f xs") auto
qed

lemma get_si_loop_length:
  "get_si_loop nps grads params = Returns (ps, gs) \<Longrightarrow>
     length ps = length params + length (filter (\<lambda>(n, p). is_si n) nps)"
proof (induction nps grads params rule: get_si_loop.induct)
  case (1 grads params)
  then show ?case by simp
next
  case (2 n p rest grads params)
  then show ?case
    by (cases "is_si n"; cases "grad p") auto
qed

text \<open>
  When the snapshot is the one \<open>get_si_params_data\<close> returns and an SI parameter stands
  at a position that is not below the number of SI parameters (some other parameter
  comes before it), \<open>set_si_params_data\<close> does not return.
\<close>

lemma set_si_params_data_after_other_parameter:
  assumes "get_si_params_data m = Returns (params, grads)"
    and "i < length (named_parameters m)" and "is_si (fst (named_parameters m ! i))"
    and "length (filter (\<lambda>(n, p). is_si n) (named_parameters m)) \<le> i"
  shows "set_si_params_data A m params grads alpha \<noteq> Returns m'"
proof
  assume ret: "set_si_params_data A m params grads alpha = Returns m'"
  from assms(1) have len: "length params = length (filter (\<lambda>(n, p). is_si n) (named_parameters m))"
    using get_si_loop_length [of "named_parameters m" "[]" "[]" params grads]
    by (simp add: get_si_params_data_def)
  obtain n p where np: "named_parameters m ! i = (n, p)" by (cases "named_parameters m ! i") auto
  have mem: "(i, n, p) \<in> set (enumerate 0 (named_parameters m))"
    using assms(2) np by (simp add: in_set_enumerate_eq)
  have "set_si_param A params grads alpha (i, n, p) = Raises IndexError"
    using assms(3,4) np len by (simp add: set_si_param_def)
  moreover from ret obtain nps where
      "for_each (set_si_param A params grads alpha) (enumerate 0 (named_parameters m)) = Returns nps"
    by (cases "for_each (set_si_param A params grads alpha) (enumerate 0 (named_parameters m))")
       (simp_all add: set_si_params_data_def)
  from for_each_Returns_all [OF this] mem
  have "\<exists>y. set_si_param A params grads alpha (i, n, p) = Returns y"
    by blast
  ultimately show False by simp
qed

text \<open>
  C2. The snapshot of \<open>get_si_params_data\<close> has one entry for each SI parameter, and
  \<open>set_si_params_data\<close> reads it at the position of the parameter among all named
  parameters. For a model whose parameters are \<open>fc.weight\<close> and then \<open>conv1.weight\<close> the
  snapshot has one entry, the SI parameter has position 1, and the restore raises
  \<open>IndexError\<close> instead of restoring the parameter from the entry of its rank.
\<close>

theorem set_si_params_data_rank_mismatch:
  "get_si_params_data (net_of [(''fc.weight'', \<lparr>data = vec [Fin 1], grad = Some (vec [Fin 1])\<rparr>),
                               (''conv1.weight'', \<lparr>data = vec [Fin 2], grad = Some (vec [Fin 3])\<rparr>)])
     = Returns ([vec [Fin 2]], [vec [Fin 3]])
   \<and> set_si_params_data exact_arith
        (net_of [(''fc.weight'', \<lparr>data = vec [Fin 1], grad = Some (vec [Fin 1])\<rparr>),
                 (''conv1.weight'', \<lparr>data = vec [Fin 2], grad = Some (vec [Fin 3])\<rparr>)])
        [vec [Fin 2]] [vec [Fin 3]] (1 / 2)
     = Raises IndexError"
  by (simp add: get_si_params_data_def set_si_params_data_def set_si_param_def net_of_def
      enumerate_eq_zip is_si_examples upt_rec)

section \<open>Values within a relative tolerance\<close>

text \<open>The algebra of \<open>close\<close>: how the number of roundings grows along a computation.\<close>

lemma pow_ge_one: "0 \<le> u \<Longrightarrow> 1 \<le> (1 + u :: real) ^ e"
  by (simp add: one_le_power)

lemma close_refl: "0 \<le> u \<Longrightarrow> 0 \<le> x \<Longrightarrow> close u e x x"
  unfolding close_def using pow_ge_one [of u e] by (simp add: mult_le_cancel_right1)

lemma close_sym: "close u e y x \<Longrightarrow> close u e x y"
  by (simp add: close_def)

lemma close_trans:
  assumes "0 \<le> u" and "close u e1 z y" and "close u e2 y x"
  shows "close u (e1 + e2) z x"
proof -
  have c1: "0 \<le> (1 + u) ^ e1" and c2: "0 \<le> (1 + u) ^ e2"
    using assms(1) by simp_all
  have "x \<le> (1 + u) ^ e2 * y"
    using assms(3) by (simp add: close_def)
  also have "\<dots> \<le> (1 + u) ^ e2 * ((1 + u) ^ e1 * z)"
    using assms(2) c2 by (intro mult_left_mono) (simp_all add: close_def)
  finally have a: "x \<le> (1 + u) ^ (e1 + e2) * z"
    by (simp add: power_add mult_ac)
  have "z \<le> (1 + u) ^ e1 * y"
    using assms(2) by (simp add: close_def)
  also have "\<dots> \<le> (1 + u) ^ e1 * ((1 + u) ^ e2 * x)"
    using assms(3) c1 by (intro mult_left_mono) (simp_all add: close_def)
  finally have b: "z \<le> (1 + u) ^ (e1 + e2) * x"
    by (simp add: power_add mult_ac)
  from a b show ?thesis by (simp add: close_def)
qed

lemma close_mono:
  assumes "0 \<le> u" and "e \<le> e'" and "0 \<le> x" and "0 \<le> y" and "close u e y x"
  shows "close u e' y x"
proof -
  have "(1 + u) ^ e \<le> (1 + u) ^ e'"
    using assms(1,2) by (intro power_increasing) simp_all
  then have "(1 + u) ^ e * y \<le> (1 + u) ^ e' * y" "(1 + u) ^ e * x \<le> (1 + u) ^ e' * x"
    using assms(3,4) by (simp_all add: mult_right_mono)
  with assms(5) show ?thesis
    unfolding close_def by linarith
qed

lemma close_mult:
  assumes "0 \<le> u" and "0 \<le> a" "0 \<le> a'" "0 \<le> b" "0 \<le> b'"
    and "close u e1 a' a" and "close u e2 b' b"
  shows "close u (e1 + e2) (a' * b') (a * b)"
proof -
  have c1: "0 \<le> (1 + u) ^ e1" and c2: "0 \<le> (1 + u) ^ e2"
    using assms(1) by simp_all
  have "a * b \<le> ((1 + u) ^ e1 * a') * ((1 + u) ^ e2 * b')"
    using assms by (intro mult_mono) (simp_all add: close_def)
  moreover have "a' * b' \<le> ((1 + u) ^ e1 * a) * ((1 + u) ^ e2 * b)"
    using assms by (intro mult_mono) (simp_all add: close_def)
  ultimately show ?thesis
    by (simp add: close_def power_add mult_ac)
qed

lemma close_sqrt:
  assumes "0 \<le> u" and "close u (2 * e) y x"
  shows "close u e (sqrt y) (sqrt x)"
proof -
  have "(1 + u) ^ (2 * e) = ((1 + u) ^ e)\<^sup>2"
    by (simp add: power_mult [symmetric] mult.commute)
  then have p: "sqrt ((1 + u) ^ (2 * e)) = (1 + u) ^ e"
    using assms(1) by simp
  have "sqrt x \<le> sqrt ((1 + u) ^ (2 * e) * y)" "sqrt y \<le> sqrt ((1 + u) ^ (2 * e) * x)"
    using assms(2) by (simp_all add: close_def)
  then show ?thesis
    by (simp add: close_def real_sqrt_mult p)
qed

lemma close_sqrt_weak:
  assumes "0 \<le> u" and "0 \<le> x" and "0 \<le> y" and "close u e y x"
  shows "close u e (sqrt y) (sqrt x)"
proof -
  have "close u (2 * e) y x"
    using assms by (intro close_mono [of u e "2 * e"]) simp_all
  then show ?thesis
    by (rule close_sqrt [OF assms(1)])
qed

lemma close_div:
  assumes "0 \<le> u" and "0 \<le> a" "0 \<le> a'" "0 < b" "0 < b'"
    and "close u e1 a' a" and "close u e2 b' b"
  shows "close u (e1 + e2) (a' / b') (a / b)"
proof -
  have "close u e2 (1 / b') (1 / b)"
    using assms(4,5,7) by (simp add: close_def field_simps)
  from close_mult [OF assms(1) assms(2,3) _ _ assms(6) this] assms(4,5) show ?thesis
    by simp
qed

lemma close_sum_list:
  assumes "0 \<le> u" and "list_all2 (\<lambda>y x. close u e y x) ys xs"
  shows "close u e (sum_list ys) (sum_list xs)"
  using assms(2)
proof (induction rule: list_all2_induct)
  case Nil
  then show ?case by (simp add: close_def)
next
  case (Cons y ys x xs)
  then show ?case
    by (simp add: close_def algebra_simps)
qed

lemma close_zero: "0 \<le> u \<Longrightarrow> close u e y 0 \<Longrightarrow> 0 \<le> y \<Longrightarrow> y = 0"
  by (simp add: close_def)

lemma close_pos: "0 \<le> u \<Longrightarrow> close u e y x \<Longrightarrow> 0 < x \<Longrightarrow> 0 \<le> y \<Longrightarrow> 0 < y"
  by (cases "y = 0") (auto simp: close_def)


section \<open>The accuracy of the SI norm\<close>

lemma Fin_real_of: "is_fin x \<Longrightarrow> Fin (real_of x) = x"
  by (cases x) simp_all

lemma rounds_withinD:
  assumes "rounds_within u r"
  shows "\<exists>y. r x = Fin y \<and> (0 \<le> x \<longrightarrow> 0 \<le> y) \<and> close u 1 \<bar>y\<bar> \<bar>x\<bar>"
  using assms unfolding rounds_within_def by blast

lemma reduce_sum_within:
  assumes "0 \<le> u" and "sums_within u f" and "\<forall>x \<in> set xs. 0 \<le> x"
  shows "\<exists>y. reduce_sum f (map Fin xs) = Fin y \<and> 0 \<le> y \<and> close u (length xs) y (sum_list xs)"
proof (cases "xs = []")
  case True
  then show ?thesis by (simp add: reduce_sum_def close_def)
next
  case False
  with assms(2,3) show ?thesis
    unfolding sums_within_def reduce_sum_def by simp
qed

text \<open>The rounded square of a finite entry.\<close>

lemma square_within:
  assumes "0 \<le> u" and "rounds_within u r" and "is_fin x"
  shows "\<exists>q. fl_mul r x x = Fin q \<and> 0 \<le> q \<and> close u 1 q ((real_of x)\<^sup>2)"
proof -
  obtain a where x: "x = Fin a" using assms(3) by (cases x) auto
  obtain y where y: "r (a * a) = Fin y" "0 \<le> a * a \<longrightarrow> 0 \<le> y" "close u 1 \<bar>y\<bar> \<bar>a * a\<bar>"
    using rounds_withinD [OF assms(2), of "a * a"] by blast
  then have "0 \<le> y" by simp
  with y show ?thesis
    by (simp add: x power2_eq_square)
qed

text \<open>The sum of squares of a tensor with finite entries.\<close>

lemma sq_sum_within:
  assumes acc: "accurate u A" and fin: "\<forall>x \<in> set (vals t). is_fin x"
  shows "\<exists>s. sq_sum A t = Fin s \<and> 0 \<le> s
           \<and> close u (length (vals t) + 1) s (sum_list (map (\<lambda>x. (real_of x)\<^sup>2) (vals t)))"
proof -
  from acc have u: "0 \<le> u" and rt: "rounds_within u (round_tensor A)" and ts: "sums_within u (tensor_sum A)"
    by (simp_all add: accurate_def)
  let ?qs = "map (\<lambda>x. real_of (fl_mul (round_tensor A) x x)) (vals t)"
  have each: "fl_mul (round_tensor A) x x = Fin (real_of (fl_mul (round_tensor A) x x))
              \<and> 0 \<le> real_of (fl_mul (round_tensor A) x x)
              \<and> close u 1 (real_of (fl_mul (round_tensor A) x x)) ((real_of x)\<^sup>2)"
    if "x \<in> set (vals t)" for x
    using square_within [OF u rt, of x] fin that by auto
  have eq: "map (\<lambda>x. fl_mul (round_tensor A) x x) (vals t) = map Fin ?qs"
    using each by simp
  have nonneg: "\<forall>q \<in> set ?qs. 0 \<le> q"
    using each by auto
  from reduce_sum_within [OF u ts nonneg] obtain s where
      s: "reduce_sum (tensor_sum A) (map Fin ?qs) = Fin s" "0 \<le> s" "close u (length (vals t)) s (sum_list ?qs)"
    by auto
  have "list_all2 (\<lambda>y x. close u 1 y x) ?qs (map (\<lambda>x. (real_of x)\<^sup>2) (vals t))"
    using each by (simp add: list_all2_conv_all_nth)
  then have "close u 1 (sum_list ?qs) (sum_list (map (\<lambda>x. (real_of x)\<^sup>2) (vals t)))"
    by (rule close_sum_list [OF u])
  from close_trans [OF u s(3) this] s(1,2) show ?thesis
    by (simp add: sq_sum_def eq)
qed


lemma sum_list_map_concat:
  "sum_list (map f (concat xss)) = sum_list (map (\<lambda>xs. sum_list (map f xs)) xss)"
  by (induction xss) simp_all

lemma length_le_concat: "xs \<in> set xss \<Longrightarrow> length xs \<le> length (concat xss)"
  by (induction xss) auto

text \<open>The computed norm of finite entries is within a factor of the Euclidean norm.\<close>

lemma norm_within_list:
  assumes acc: "accurate u A" and fin: "\<forall>t \<in> set ts. \<forall>x \<in> set (vals t). is_fin x"
  shows "\<exists>r. fl_sqrt (round_double A) (reduce_sum (py_sum A) (map (sq_sum A) ts)) = Fin r \<and> 0 \<le> r
           \<and> close u (length (concat (map vals ts)) + length ts + 2) r
                (sqrt (sum_list (map (\<lambda>x. (real_of x)\<^sup>2) (concat (map vals ts)))))"
proof -
  from acc have u: "0 \<le> u" and rd: "rounds_within u (round_double A)" and ps: "sums_within u (py_sum A)"
    by (simp_all add: accurate_def)
  let ?n = "length (concat (map vals ts))"
  let ?sq = "\<lambda>t. sum_list (map (\<lambda>x. (real_of x)\<^sup>2) (vals t))"
  let ?ss = "map (\<lambda>t. real_of (sq_sum A t)) ts"
  have sqnn: "0 \<le> ?sq t" for t :: "fp tensor"
    by (intro sum_list_nonneg) auto
  have each: "sq_sum A t = Fin (real_of (sq_sum A t)) \<and> 0 \<le> real_of (sq_sum A t)
              \<and> close u (?n + 1) (real_of (sq_sum A t)) (?sq t)"
    if t: "t \<in> set ts" for t
  proof -
    from sq_sum_within [OF acc, of t] fin t obtain s where
        s: "sq_sum A t = Fin s" "0 \<le> s" "close u (length (vals t) + 1) s (?sq t)"
      by auto
    have "length (vals t) \<le> ?n"
      using t by (intro length_le_concat) simp
    then have "close u (?n + 1) s (?sq t)"
      using s(2,3) sqnn [of t] by (intro close_mono [OF u _ _ _ s(3)]) simp_all
    with s show ?thesis by simp
  qed
  have eq: "map (sq_sum A) ts = map Fin ?ss"
    using each by simp
  have nonneg: "\<forall>s \<in> set ?ss. 0 \<le> s"
    using each by auto
  from reduce_sum_within [OF u ps nonneg] obtain T where
      T: "reduce_sum (py_sum A) (map Fin ?ss) = Fin T" "0 \<le> T" "close u (length ts) T (sum_list ?ss)"
    by auto
  have "list_all2 (\<lambda>y x. close u (?n + 1) y x) ?ss (map ?sq ts)"
    using each by (simp add: list_all2_conv_all_nth)
  then have "close u (?n + 1) (sum_list ?ss) (sum_list (map ?sq ts))"
    by (rule close_sum_list [OF u])
  from close_trans [OF u T(3) this]
  have TS: "close u (length ts + (?n + 1)) T (sum_list (map (\<lambda>x. (real_of x)\<^sup>2) (concat (map vals ts))))"
    by (simp add: sum_list_map_concat o_def)
  let ?S = "sum_list (map (\<lambda>x. (real_of x)\<^sup>2) (concat (map vals ts)))"
  have Snn: "0 \<le> ?S"
    by (intro sum_list_nonneg) auto
  have sq: "close u (length ts + (?n + 1)) (sqrt T) (sqrt ?S)"
    using close_sqrt_weak [OF u Snn T(2) TS] .
  from rounds_withinD [OF rd, of "sqrt T"] obtain r where
      r: "round_double A (sqrt T) = Fin r" "0 \<le> sqrt T \<longrightarrow> 0 \<le> r" "close u 1 \<bar>r\<bar> \<bar>sqrt T\<bar>"
    by blast
  have rnn: "0 \<le> r" using r(2) T(2) by simp
  then have "close u 1 r (sqrt T)"
    using r(3) T(2) by simp
  from close_trans [OF u this sq] have "close u (?n + length ts + 2) r (sqrt ?S)"
    by (simp add: add.commute add.left_commute)
  moreover have "fl_sqrt (round_double A) (reduce_sum (py_sum A) (map (sq_sum A) ts)) = Fin r"
    using T(1,2) r(1) by (simp add: eq)
  ultimately show ?thesis
    using rnn by blast
qed

lemma norm_within:
  assumes "accurate u A" and "\<forall>x \<in> set (si_entries m). is_fin x"
  shows "\<exists>r. get_si_params_norm A m = NpFloat64 (Fin r) \<and> 0 \<le> r
           \<and> close u (length (si_entries m) + length (si_tensors m) + 2) r (true_norm m)"
proof -
  have "\<forall>t \<in> set (si_tensors m). \<forall>x \<in> set (vals t). is_fin x"
    using assms(2) by (auto simp: si_entries_def)
  from norm_within_list [OF assms(1) this] show ?thesis
    by (simp add: get_si_params_norm_def si_entries_def true_norm_def)
qed

section \<open>fix_si_pnorm in an accurate arithmetic\<close>

lemma close_cong:
  "close u e y x \<Longrightarrow> e = e' \<Longrightarrow> y = y' \<Longrightarrow> x = x' \<Longrightarrow> close u e' y' x'"
  by simp

lemma prod_quot_square:
  "(p * (q / n)) * (p * (q / n)) = (p * p) * ((q * q) / (n * n))" for p q n :: real
  by simp

lemma si_tensors_scaled:
  "si_tensors (m\<lparr>named_parameters :=
       map (\<lambda>(n, p). if is_si n then (n, p\<lparr>data := f (data p)\<rparr>) else (n, p)) (named_parameters m)\<rparr>)
   = map f (si_tensors m)"
proof -
  have "map (\<lambda>(n, p). data p) (filter (\<lambda>(n, p). is_si n)
          (map (\<lambda>(n, p). if is_si n then (n, p\<lparr>data := f (data p)\<rparr>) else (n, p)) nps))
        = map f (map (\<lambda>(n, p). data p) (filter (\<lambda>(n, p). is_si n) nps))" for nps :: "(string \<times> param) list"
    by (induction nps) (auto split: if_splits)
  then show ?thesis
    by (simp add: si_tensors_def)
qed

lemma si_entries_scaled:
  "si_entries (m\<lparr>named_parameters :=
       map (\<lambda>(n, p). if is_si n then (n, p\<lparr>data := scale A c (data p)\<rparr>) else (n, p)) (named_parameters m)\<rparr>)
   = map (\<lambda>x. fl_mul (round_tensor A) x (fl_round (round_tensor A) c)) (si_entries m)"
  by (simp add: si_entries_def si_tensors_scaled scale_def map_concat o_def)

lemma scaled_frame:
  fixes m :: model and f :: "fp tensor \<Rightarrow> fp tensor"
  defines "m' \<equiv> m\<lparr>named_parameters :=
       map (\<lambda>(n, p). if is_si n then (n, p\<lparr>data := f (data p)\<rparr>) else (n, p)) (named_parameters m)\<rparr>"
  shows "length (named_parameters m') = length (named_parameters m)
       \<and> (\<forall>i < length (named_parameters m).
             fst (named_parameters m' ! i) = fst (named_parameters m ! i)
             \<and> grad (snd (named_parameters m' ! i)) = grad (snd (named_parameters m ! i))
             \<and> (\<not> is_si (fst (named_parameters m ! i)) \<longrightarrow>
                   named_parameters m' ! i = named_parameters m ! i))"
  by (auto simp: m'_def split_def)

text \<open>
  In such an arithmetic the computed SI norm is 0 exactly when the Euclidean norm of the
  finite SI entries is 0.
\<close>

lemma computed_norm_zero_iff:
  assumes "accurate u A" and "\<forall>x \<in> set (si_entries m). is_fin x"
  shows "get_si_params_norm A m = NpFloat64 (Fin 0) \<longleftrightarrow> true_norm m = 0"
proof -
  from assms(1) have u: "0 \<le> u" by (simp add: accurate_def)
  from norm_within [OF assms] obtain r where
      r: "get_si_params_norm A m = NpFloat64 (Fin r)" "0 \<le> r"
         "close u (length (si_entries m) + length (si_tensors m) + 2) r (true_norm m)"
    by blast
  have "0 \<le> sum_list (map (\<lambda>x. (real_of x)\<^sup>2) (si_entries m))"
    by (intro sum_list_nonneg) auto
  then have nn: "0 \<le> true_norm m"
    by (simp add: true_norm_def)
  have "r = 0" if "true_norm m = 0"
    using close_zero [OF u _ r(2)] r(3) that by simp
  moreover have "true_norm m = 0" if "r = 0"
    using close_zero [OF u _ nn] close_sym [OF r(3)] that by simp
  ultimately have "r = 0 \<longleftrightarrow> true_norm m = 0"
    by blast
  with r(1) show ?thesis by simp
qed

text \<open>
  The error analysis, for an arithmetic that is accurate everywhere: the computed norm is
  within \<open>n + k + 2\<close> roundings of the Euclidean norm, the coefficient within \<open>n + k + 4\<close>
  of \<open>\<bar>target\<bar> / norm\<close>, each scaled entry within \<open>n + k + 5\<close> of its exact value, the
  Euclidean norm of the scaled entries within \<open>n + k + 5\<close> of \<open>\<bar>target\<bar>\<close>, and the norm
  computed from them within \<open>n + k + 2\<close> more.
\<close>

lemma norm_after_fix_accurate:
  assumes acc: "accurate u A" and fin: "\<forall>x \<in> set (si_entries m). is_fin x" and nz: "true_norm m \<noteq> 0"
  shows "\<exists>m' n'. fix_si_pnorm A m target = Returns m'
          \<and> get_si_params_norm A m' = NpFloat64 (Fin n') \<and> 0 \<le> n'
          \<and> close u (2 * (length (si_entries m) + length (si_tensors m)) + 7) n' \<bar>target\<bar>
          \<and> (0 \<le> target \<longrightarrow>
                close u (2 * (length (si_entries m) + length (si_tensors m)) + 7) n' target)
          \<and> length (named_parameters m') = length (named_parameters m)
          \<and> (\<forall>i < length (named_parameters m).
                fst (named_parameters m' ! i) = fst (named_parameters m ! i)
                \<and> grad (snd (named_parameters m' ! i)) = grad (snd (named_parameters m ! i))
                \<and> (\<not> is_si (fst (named_parameters m ! i)) \<longrightarrow>
                      named_parameters m' ! i = named_parameters m ! i))"
proof -
  from acc have u: "0 \<le> u" and rt: "rounds_within u (round_tensor A)" and rd: "rounds_within u (round_double A)"
    by (simp_all add: accurate_def)
  let ?a = "length (si_entries m) + length (si_tensors m) + 2"
  let ?N = "true_norm m"
  let ?S = "sum_list (map (\<lambda>x. (real_of x)\<^sup>2) (si_entries m))"
  have Snn: "0 \<le> ?S" by (intro sum_list_nonneg) auto
  have Npos: "0 < ?N"
    using nz Snn by (simp add: true_norm_def less_le)
  have NN: "?N * ?N = ?S"
    using Snn by (simp add: true_norm_def)
  \<comment> \<open>the computed norm\<close>
  from norm_within [OF acc fin] obtain r where
      r: "get_si_params_norm A m = NpFloat64 (Fin r)" "0 \<le> r" "close u ?a r ?N"
    by blast
  have rpos: "0 < r"
    using close_pos [OF u r(3) Npos r(2)] .
  \<comment> \<open>the coefficient\<close>
  from rounds_withinD [OF rd, of "target / r"] obtain c0 where
      c0: "round_double A (target / r) = Fin c0" "close u 1 \<bar>c0\<bar> \<bar>target / r\<bar>"
    by blast
  have "close u (0 + ?a) (\<bar>target\<bar> / r) (\<bar>target\<bar> / ?N)"
    using rpos Npos r(3) by (intro close_div [OF u]) (simp_all add: close_refl [OF u])
  then have "close u ?a \<bar>target / r\<bar> (\<bar>target\<bar> / ?N)"
    using rpos by (rule_tac close_cong) simp_all
  have c0N: "close u (?a + 1) \<bar>c0\<bar> (\<bar>target\<bar> / ?N)"
    by (rule close_cong [OF close_trans [OF u c0(2) \<open>close u ?a \<bar>target / r\<bar> (\<bar>target\<bar> / ?N)\<close>]]) simp_all
  from rounds_withinD [OF rt, of c0] obtain c1 where
      c1: "round_tensor A c0 = Fin c1" "close u 1 \<bar>c1\<bar> \<bar>c0\<bar>"
    by blast
  have c1N: "close u (?a + 2) \<bar>c1\<bar> (\<bar>target\<bar> / ?N)"
    by (rule close_cong [OF close_trans [OF u c1(2) c0N]]) simp_all
  \<comment> \<open>the call and the model it leaves\<close>
  let ?g = "\<lambda>x. fl_mul (round_tensor A) x (fl_round (round_tensor A) (Fin c0))"
  let ?m' = "m\<lparr>named_parameters :=
       map (\<lambda>(n, p). if is_si n then (n, p\<lparr>data := scale A (Fin c0) (data p)\<rparr>) else (n, p)) (named_parameters m)\<rparr>"
  have norm_eq: "fl_sqrt (round_double A) (reduce_sum (py_sum A) (map (sq_sum A) (si_tensors m))) = Fin r"
    using r(1) by (simp add: get_si_params_norm_def)
  have ret: "fix_si_pnorm A m target = Returns ?m'"
    using rpos c0(1) by (simp add: fix_si_pnorm_def norm_eq split_def)
  have ent: "si_entries ?m' = map ?g (si_entries m)"
    by (rule si_entries_scaled)
  \<comment> \<open>each entry after the call\<close>
  have each: "?g x = Fin (real_of (?g x))
              \<and> close u (2 * (?a + 3)) ((real_of (?g x))\<^sup>2) ((real_of x)\<^sup>2 * (target\<^sup>2 / ?S))"
    if x: "x \<in> set (si_entries m)" for x
  proof -
    obtain b where b: "x = Fin b" using fin x by (cases x) auto
    from rounds_withinD [OF rt, of "b * c1"] obtain y where
        y: "round_tensor A (b * c1) = Fin y" "close u 1 \<bar>y\<bar> \<bar>b * c1\<bar>"
      by blast
    have gx: "?g x = Fin y"
      by (simp add: b c1(1) y(1))
    have "close u (0 + (?a + 2)) (\<bar>b\<bar> * \<bar>c1\<bar>) (\<bar>b\<bar> * (\<bar>target\<bar> / ?N))"
      using Npos c1N by (intro close_mult [OF u]) (simp_all add: close_refl [OF u])
    then have bc: "close u (?a + 2) \<bar>b * c1\<bar> (\<bar>b\<bar> * (\<bar>target\<bar> / ?N))"
      by (rule close_cong) (simp_all add: abs_mult)
    have ay: "close u (?a + 3) \<bar>y\<bar> (\<bar>b\<bar> * (\<bar>target\<bar> / ?N))"
      by (rule close_cong [OF close_trans [OF u y(2) bc]]) simp_all
    have sq: "close u ((?a + 3) + (?a + 3)) (\<bar>y\<bar> * \<bar>y\<bar>) ((\<bar>b\<bar> * (\<bar>target\<bar> / ?N)) * (\<bar>b\<bar> * (\<bar>target\<bar> / ?N)))"
      using Npos ay by (intro close_mult [OF u]) simp_all
    have e1: "\<bar>y\<bar> * \<bar>y\<bar> = y\<^sup>2"
      by (simp add: power2_eq_square)
    have "(\<bar>b\<bar> * (\<bar>target\<bar> / ?N)) * (\<bar>b\<bar> * (\<bar>target\<bar> / ?N))
            = (\<bar>b\<bar> * \<bar>b\<bar>) * ((\<bar>target\<bar> * \<bar>target\<bar>) / (?N * ?N))"
      by (rule prod_quot_square)
    also have "\<dots> = (b * b) * ((target * target) / (?N * ?N))"
      by (simp only: abs_mult_self_eq)
    finally have "(\<bar>b\<bar> * (\<bar>target\<bar> / ?N)) * (\<bar>b\<bar> * (\<bar>target\<bar> / ?N)) = (b * b) * ((target * target) / (?N * ?N))" .
    then have e2: "(\<bar>b\<bar> * (\<bar>target\<bar> / ?N)) * (\<bar>b\<bar> * (\<bar>target\<bar> / ?N)) = b\<^sup>2 * (target\<^sup>2 / ?S)"
      unfolding NN by (simp add: power2_eq_square)
    have "close u (2 * (?a + 3)) (y\<^sup>2) (b\<^sup>2 * (target\<^sup>2 / ?S))"
      by (rule close_cong [OF sq _ e1 e2]) simp
    then show ?thesis
      by (simp add: b c1(1) y(1))
  qed
  have fin': "\<forall>x \<in> set (si_entries ?m'). is_fin x"
    unfolding ent using each by (auto simp del: fl_mul.simps fl_round.simps) (metis is_fin.simps(1))
  \<comment> \<open>the Euclidean norm after the call\<close>
  have "list_all2 (\<lambda>y x. close u (2 * (?a + 3)) y x)
          (map (\<lambda>x. (real_of (?g x))\<^sup>2) (si_entries m))
          (map (\<lambda>x. (real_of x)\<^sup>2 * (target\<^sup>2 / ?S)) (si_entries m))"
    using each by (simp add: list_all2_conv_all_nth del: fl_mul.simps fl_round.simps)
  then have "close u (2 * (?a + 3)) (sum_list (map (\<lambda>x. (real_of (?g x))\<^sup>2) (si_entries m)))
                (sum_list (map (\<lambda>x. (real_of x)\<^sup>2 * (target\<^sup>2 / ?S)) (si_entries m)))"
    by (rule close_sum_list [OF u])
  moreover have "sum_list (map (\<lambda>x. (real_of x)\<^sup>2 * (target\<^sup>2 / ?S)) (si_entries m)) = target\<^sup>2"
  proof -
    have "sum_list (map (\<lambda>x. (real_of x)\<^sup>2 * (target\<^sup>2 / ?S)) (si_entries m)) = ?S * (target\<^sup>2 / ?S)"
      by (rule sum_list_mult_const)
    also have "\<dots> = target\<^sup>2"
      using Npos NN by (cases "?S = 0") auto
    finally show ?thesis .
  qed
  ultimately have "close u (2 * (?a + 3)) (sum_list (map (\<lambda>x. (real_of x)\<^sup>2) (si_entries ?m'))) (target\<^sup>2)"
    unfolding ent by (simp add: o_def del: fl_mul.simps fl_round.simps)
  from close_sqrt [OF u this] have tn: "close u (?a + 3) (true_norm ?m') \<bar>target\<bar>"
    by (simp add: true_norm_def)
  \<comment> \<open>the computed norm after the call\<close>
  have sizes: "length (si_entries ?m') = length (si_entries m)" "length (si_tensors ?m') = length (si_tensors m)"
    unfolding ent by (simp_all add: si_tensors_scaled del: fl_mul.simps fl_round.simps)
  from norm_within [OF acc fin'] obtain n' where
      n': "get_si_params_norm A ?m' = NpFloat64 (Fin n')" "0 \<le> n'" "close u ?a n' (true_norm ?m')"
    unfolding sizes by blast
  have fin_close: "close u (2 * (length (si_entries m) + length (si_tensors m)) + 7) n' \<bar>target\<bar>"
    by (rule close_cong [OF close_trans [OF u n'(3) tn]]) simp_all
  have frame: "length (named_parameters ?m') = length (named_parameters m)
       \<and> (\<forall>i < length (named_parameters m).
             fst (named_parameters ?m' ! i) = fst (named_parameters m ! i)
             \<and> grad (snd (named_parameters ?m' ! i)) = grad (snd (named_parameters m ! i))
             \<and> (\<not> is_si (fst (named_parameters m ! i)) \<longrightarrow>
                   named_parameters ?m' ! i = named_parameters m ! i))"
    by (rule scaled_frame)
  have pos_close: "0 \<le> target \<longrightarrow>
      close u (2 * (length (si_entries m) + length (si_tensors m)) + 7) n' target"
    using fin_close by (auto simp: abs_of_nonneg)
  from ret n'(1,2) fin_close pos_close frame [THEN conjunct1] frame [THEN conjunct2] show ?thesis
    by (intro exI [of _ ?m'] exI [of _ n'] conjI)
qed

lemma close_add:
  assumes "close u e a' a" and "0 \<le> u" and "0 \<le> x"
  shows "close u e (a' + x) (a + x)"
proof -
  have "1 \<le> (1 + u) ^ e" using assms(2) by (rule pow_ge_one)
  then have "x \<le> (1 + u) ^ e * x"
    using assms(3) by (simp add: mult_le_cancel_right1)
  with assms(1) show ?thesis
    by (simp add: close_def distrib_left)
qed

lemma recursive_sum_within:
  assumes u: "0 \<le> u" and r: "rounds_within u r"
  shows "(\<forall>x \<in> set xs. 0 \<le> x) \<Longrightarrow> 0 \<le> a \<Longrightarrow> 0 \<le> a' \<Longrightarrow> close u e a' a \<Longrightarrow>
         \<exists>y. foldl (fl_add r) (Fin a') (map Fin xs) = Fin y \<and> 0 \<le> y
              \<and> close u (e + length xs) y (a + sum_list xs)"
proof (induction xs arbitrary: a a' e)
  case Nil
  then show ?case by simp
next
  case (Cons x xs)
  from Cons.prems(1) have x: "0 \<le> x" and xs: "\<forall>x \<in> set xs. 0 \<le> x" by simp_all
  from rounds_withinD [OF r, of "a' + x"] obtain z where
      z: "r (a' + x) = Fin z" "0 \<le> a' + x \<longrightarrow> 0 \<le> z" "close u 1 \<bar>z\<bar> \<bar>a' + x\<bar>"
    by blast
  have z0: "0 \<le> z" using z(2) x Cons.prems(3) by simp
  have "close u 1 z (a' + x)"
    using z(3) z0 x Cons.prems(3) by simp
  from close_trans [OF u this close_add [OF Cons.prems(4) u x]]
  have zc: "close u (Suc e) z (a + x)" by simp
  have ax: "0 \<le> a + x" using x Cons.prems(2) by simp
  from Cons.IH [OF xs ax z0 zc] obtain y where
      y: "foldl (fl_add r) (Fin z) (map Fin xs) = Fin y" "0 \<le> y"
         "close u (Suc e + length xs) y (a + x + sum_list xs)"
    by blast
  then show ?case
    by (simp add: z(1) add.assoc)
qed

lemma recursive_sums_within:
  assumes "0 \<le> u" and "rounds_within u r"
  shows "sums_within u (foldl (fl_add r) (Fin 0))"
  unfolding sums_within_def
proof (intro allI impI)
  fix xs :: "real list"
  assume "xs \<noteq> [] \<and> (\<forall>x \<in> set xs. 0 \<le> x)"
  then have nn: "\<forall>x \<in> set xs. 0 \<le> x" by simp
  have "close u 0 0 0" by (simp add: close_def)
  from recursive_sum_within [OF assms nn _ _ this]
  show "\<exists>y. foldl (fl_add r) (Fin 0) (map Fin xs) = Fin y \<and> 0 \<le> y \<and> close u (length xs) y (sum_list xs)"
    by simp
qed

lemma inflate_rounds_within: "rounds_within (1 / 1000) inflate"
  unfolding rounds_within_def
proof
  fix x :: real
  have "\<bar>x\<bar> \<le> (1001 / 1000) * ((1001 / 1000) * \<bar>x\<bar>)"
    by simp
  then have "close (1 / 1000) 1 \<bar>x * (1001 / 1000)\<bar> \<bar>x\<bar>"
    by (simp add: close_def abs_mult)
  moreover have "0 \<le> x \<longrightarrow> 0 \<le> x * (1001 / 1000)"
    by simp
  ultimately show "\<exists>y. inflate x = Fin y \<and> (0 \<le> x \<longrightarrow> 0 \<le> y) \<and> close (1 / 1000) 1 \<bar>y\<bar> \<bar>x\<bar>"
    unfolding inflate_def by blast
qed

lemma inflating_arith_accurate: "accurate (1 / 1000) inflating_arith"
  by (simp add: accurate_def inflating_arith_def inflate_rounds_within recursive_sums_within)

lemma exact_rounds_within: "rounds_within 0 Fin"
  by (simp add: rounds_within_def close_def)

lemma exact_arith_accurate: "accurate 0 exact_arith"
  by (simp add: accurate_def exact_arith_def exact_rounds_within recursive_sums_within)

lemma sqrt_100: "sqrt 100 = 10"
  by (rule real_sqrt_unique) simp_all

lemma sqrt_25: "sqrt 25 = 5"
  by (rule real_sqrt_unique) simp_all

lemma mixed_net_entries: "si_entries mixed_net = [Fin 3, Fin 4]"
  by (simp add: si_entries_def si_tensors_def mixed_net_def net_of_def vec_def is_si_examples)

lemma mixed_net_norm: "true_norm mixed_net = 5"
  by (simp add: true_norm_def mixed_net_entries sqrt_25)

text \<open>
  The same model and target in the arithmetic whose results are too large by one part in
  a thousand.
\<close>

lemma fix_si_pnorm_inflating_example:
  "accurate (1 / 1000) inflating_arith
   \<and> si_entries mixed_net = [Fin 3, Fin 4]
   \<and> true_norm mixed_net = 5
   \<and> (\<exists>m' n'. fix_si_pnorm inflating_arith mixed_net 10 = Returns m'
          \<and> get_si_params_norm inflating_arith m' = NpFloat64 (Fin n')
          \<and> 10 \<le> (1001 / 1000) ^ 13 * n' \<and> n' \<le> (1001 / 1000) ^ 13 * 10
          \<and> named_parameters m' ! 1 = (''fc.weight'', \<lparr>data = vec [Fin 2], grad = None\<rparr>))"
proof -
  have fin: "\<forall>x \<in> set (si_entries mixed_net). is_fin x"
    by (simp add: mixed_net_entries)
  have nz: "true_norm mixed_net \<noteq> 0"
    by (simp add: mixed_net_norm)
  have sz: "length (si_entries mixed_net) = 2" "length (si_tensors mixed_net) = 1"
    "length (named_parameters mixed_net) = 2"
    "\<not> is_si (fst (named_parameters mixed_net ! 1))"
    "named_parameters mixed_net ! 1 = (''fc.weight'', \<lparr>data = vec [Fin 2], grad = None\<rparr>)"
    by (simp_all add: mixed_net_entries) (simp_all add: si_tensors_def mixed_net_def net_of_def is_si_examples)
  from norm_after_fix_accurate [OF inflating_arith_accurate fin nz, of 10]
  obtain m' n' where r:
      "fix_si_pnorm inflating_arith mixed_net 10 = Returns m'"
      "get_si_params_norm inflating_arith m' = NpFloat64 (Fin n')"
      "close (1 / 1000) 13 n' 10"
      "\<forall>i < 2. fst (named_parameters m' ! i) = fst (named_parameters mixed_net ! i)
                \<and> grad (snd (named_parameters m' ! i)) = grad (snd (named_parameters mixed_net ! i))
                \<and> (\<not> is_si (fst (named_parameters mixed_net ! i)) \<longrightarrow>
                      named_parameters m' ! i = named_parameters mixed_net ! i)"
    unfolding sz by auto
  from r(4) [rule_format, of 1] sz(4,5)
  have "named_parameters m' ! 1 = (''fc.weight'', \<lparr>data = vec [Fin 2], grad = None\<rparr>)"
    by simp
  moreover from r(3) have "10 \<le> (1001 / 1000) ^ 13 * n' \<and> n' \<le> (1001 / 1000) ^ 13 * 10"
    by (simp add: close_def)
  ultimately show ?thesis
    using r(1,2) inflating_arith_accurate mixed_net_entries mixed_net_norm by blast
qed


section \<open>fix_si_pnorm sets the SI norm\<close>

text \<open>
  From an arithmetic that is accurate everywhere to a run that is: in a run without
  overflow and underflow the arithmetic and its patched version return the same values.
\<close>

lemma patch_round_within: "0 \<le> u \<Longrightarrow> rounds_within u (patch_round u r)"
  unfolding rounds_within_def
proof
  fix x :: real
  assume u: "0 \<le> u"
  show "\<exists>y. patch_round u r x = Fin y \<and> (0 \<le> x \<longrightarrow> 0 \<le> y) \<and> close u 1 \<bar>y\<bar> \<bar>x\<bar>"
  proof (cases "rounds_at u r x")
    case True
    then show ?thesis
      by (cases "r x") (simp_all add: patch_round_def rounds_at_def)
  next
    case False
    then show ?thesis
      using close_refl [OF u, of "\<bar>x\<bar>" 1] by (simp add: patch_round_def)
  qed
qed

lemma map_real_of_Fin: "map real_of (map Fin xs) = xs"
  by (induction xs) simp_all

lemma map_real_of_o_Fin: "map (real_of \<circ> Fin) xs = xs"
  by (induction xs) simp_all

lemma patch_sum_within: "0 \<le> u \<Longrightarrow> sums_within u (patch_sum u f)"
  unfolding sums_within_def
proof (intro allI impI)
  fix xs :: "real list"
  assume u: "0 \<le> u" and xs: "xs \<noteq> [] \<and> (\<forall>x \<in> set xs. 0 \<le> x)"
  show "\<exists>y. patch_sum u f (map Fin xs) = Fin y \<and> 0 \<le> y \<and> close u (length xs) y (sum_list xs)"
  proof (cases "sums_at u f (map Fin xs)")
    case True
    with xs show ?thesis
      by (cases "f (map Fin xs)") (simp_all add: patch_sum_def sums_at_def map_real_of_o_Fin)
  next
    case False
    have "0 \<le> sum_list xs" using xs by (simp add: sum_list_nonneg)
    with False show ?thesis
      using close_refl [OF u, of "sum_list xs" "length xs"]
      by (simp add: patch_sum_def map_real_of_o_Fin)
  qed
qed

lemma patched_accurate: "0 \<le> u \<Longrightarrow> accurate u (patched u A)"
  by (simp add: accurate_def patched_def patch_round_within patch_sum_within)

lemma patched_sel:
  "round_tensor (patched u A) = patch_round u (round_tensor A)"
  "round_double (patched u A) = patch_round u (round_double A)"
  "tensor_sum (patched u A) = patch_sum u (tensor_sum A)"
  "py_sum (patched u A) = patch_sum u (py_sum A)"
  by (simp_all add: patched_def)

lemma patch_round_at: "rounds_at u r x \<Longrightarrow> patch_round u r x = r x"
  by (simp add: patch_round_def)

lemma reduce_sum_patch: "sums_at u f xs \<Longrightarrow> reduce_sum (patch_sum u f) xs = reduce_sum f xs"
  by (simp add: reduce_sum_def patch_sum_def)

lemma fl_sqrt_patch:
  "rounds_at u r (sqrt (real_of v)) \<Longrightarrow> fl_sqrt (patch_round u r) v = fl_sqrt r v"
  by (cases v) (simp_all add: patch_round_at)

lemma fl_div_patch:
  "rounds_at u r (t / real_of v) \<Longrightarrow> fl_div (patch_round u r) (Fin t) v = fl_div r (Fin t) v"
  by (cases v) (simp_all add: patch_round_at)

lemma fl_round_patch:
  "rounds_at u r (real_of c) \<Longrightarrow> fl_round (patch_round u r) c = fl_round r c"
  by (cases c) (simp_all add: patch_round_at)

lemma fl_mul_patch:
  "is_fin x \<Longrightarrow> rounds_at u r (real_of x * real_of c) \<Longrightarrow>
     fl_mul (patch_round u r) x c = fl_mul r x c"
  by (cases x; cases c) (simp_all add: patch_round_at)

lemma si_tensor_entries: "t \<in> set (si_tensors m) \<Longrightarrow> set (vals t) \<subseteq> set (si_entries m)"
  by (auto simp: si_entries_def)

lemma sq_sum_patch:
  assumes "norm_ops_ok u A m" and "t \<in> set (si_tensors m)"
  shows "sq_sum (patched u A) t = sq_sum A t"
proof -
  have "fl_mul (patch_round u (round_tensor A)) x x = fl_mul (round_tensor A) x x"
    if "x \<in> set (vals t)" for x
  proof -
    from that assms(2) have "x \<in> set (si_entries m)"
      using si_tensor_entries by blast
    with assms(1) have "is_fin x" "rounds_at u (round_tensor A) (real_of x * real_of x)"
      by (simp_all add: norm_ops_ok_def)
    then show ?thesis by (rule fl_mul_patch)
  qed
  then have eq: "map (\<lambda>x. fl_mul (patch_round u (round_tensor A)) x x) (vals t)
               = map (\<lambda>x. fl_mul (round_tensor A) x x) (vals t)"
    by simp
  from assms have "sums_at u (tensor_sum A) (map (\<lambda>x. fl_mul (round_tensor A) x x) (vals t))"
    by (simp add: norm_ops_ok_def)
  then show ?thesis
    unfolding sq_sum_def patched_sel eq by (rule reduce_sum_patch)
qed

lemma norm_patch:
  assumes "norm_ops_ok u A m"
  shows "get_si_params_norm (patched u A) m = get_si_params_norm A m"
proof -
  have sq: "map (sq_sum (patched u A)) (si_tensors m) = map (sq_sum A) (si_tensors m)"
    using sq_sum_patch [OF assms] by simp
  from assms have rt: "rounds_at u (round_double A)
           (sqrt (real_of (reduce_sum (py_sum A) (map (sq_sum A) (si_tensors m)))))"
    by (simp add: norm_ops_ok_def)
  from assms have "sums_at u (py_sum A) (map (sq_sum A) (si_tensors m))"
    by (simp add: norm_ops_ok_def)
  then have py: "reduce_sum (patch_sum u (py_sum A)) (map (sq_sum A) (si_tensors m))
               = reduce_sum (py_sum A) (map (sq_sum A) (si_tensors m))"
    by (rule reduce_sum_patch)
  show ?thesis
    unfolding get_si_params_norm_def sq patched_sel py fl_sqrt_patch [OF rt] ..
qed

lemma fix_si_pnorm_patch:
  assumes "norm_ops_ok u A m" and "scale_ops_ok u A m target"
  shows "fix_si_pnorm (patched u A) m target = fix_si_pnorm A m target"
proof -
  let ?v = "fl_sqrt (round_double A) (reduce_sum (py_sum A) (map (sq_sum A) (si_tensors m)))"
  let ?c = "fl_div (round_double A) (Fin target) ?v"
  have v': "fl_sqrt (round_double (patched u A))
              (reduce_sum (py_sum (patched u A)) (map (sq_sum (patched u A)) (si_tensors m))) = ?v"
    using norm_patch [OF assms(1)] by (simp add: get_si_params_norm_def)
  from assms(2) have ops:
      "rounds_at u (round_double A) (target / real_of ?v)"
      "rounds_at u (round_tensor A) (real_of ?c)"
      "\<forall>x \<in> set (si_entries m).
         rounds_at u (round_tensor A) (real_of x * real_of (fl_round (round_tensor A) ?c))"
    by (simp_all add: scale_ops_ok_def get_si_params_norm_def Let_def)
  have c': "fl_div (round_double (patched u A)) (Fin target) ?v = ?c"
    using fl_div_patch [OF ops(1)] by (simp add: patched_sel)
  have rc: "fl_round (round_tensor (patched u A)) ?c = fl_round (round_tensor A) ?c"
    using fl_round_patch [OF ops(2)] by (simp add: patched_sel)
  have sc: "scale (patched u A) ?c (data p) = scale A ?c (data p)"
    if "(n, p) \<in> set (named_parameters m)" and "is_si n" for n p
  proof -
    from that have "data p \<in> set (si_tensors m)"
      by (force simp: si_tensors_def)
    then have sub: "set (vals (data p)) \<subseteq> set (si_entries m)"
      by (rule si_tensor_entries)
    have "fl_mul (round_tensor (patched u A)) x (fl_round (round_tensor A) ?c)
            = fl_mul (round_tensor A) x (fl_round (round_tensor A) ?c)"
      if "x \<in> set (vals (data p))" for x
    proof -
      from that sub have x: "x \<in> set (si_entries m)" by blast
      with assms(1) have "is_fin x" by (simp add: norm_ops_ok_def)
      moreover from x ops(3)
      have "rounds_at u (round_tensor A) (real_of x * real_of (fl_round (round_tensor A) ?c))"
        by blast
      ultimately show ?thesis
        using fl_mul_patch by (simp add: patched_sel)
    qed
    then show ?thesis
      unfolding scale_def rc by simp
  qed
  have maps: "map (\<lambda>(n, p). if is_si n then (n, p\<lparr>data := scale (patched u A) ?c (data p)\<rparr>) else (n, p))
            (named_parameters m)
        = map (\<lambda>(n, p). if is_si n then (n, p\<lparr>data := scale A ?c (data p)\<rparr>) else (n, p))
            (named_parameters m)"
    using sc by (intro map_cong) auto
  show ?thesis
    unfolding fix_si_pnorm_def v'
    by (simp only: Let_def truediv.simps c' and_then.simps value_of.simps maps)
qed

text \<open>
  C4, as amended. Let no operation of \<open>fix_si_pnorm\<close> on the model overflow or underflow:
  the SI entries are finite, and the operations of the norm, the division, the conversion
  of the coefficient and the products each return a finite result within relative error
  \<open>u\<close>. Let the Euclidean norm of the SI entries be nonzero. Then \<open>fix_si_pnorm\<close> returns;
  the names, the order and the gradients of the parameters are as before, and every
  parameter whose name does not contain \<open>conv\<close> is unchanged. And when no operation of
  \<open>get_si_params_norm\<close> on the model left overflows or underflows either, its result is a
  finite number \<open>n'\<close> that equals the absolute value of the target within floating
  tolerance: within \<open>2 * (n + k) + 7\<close> roundings, for \<open>n\<close> SI entries in \<open>k\<close> SI
  parameters. For a target that is not negative this is the target itself.
\<close>

theorem fix_si_pnorm_sets_norm:
  assumes u: "0 \<le> u" and norm: "norm_ops_ok u A m" and nz: "true_norm m \<noteq> 0"
    and sc: "scale_ops_ok u A m target"
  shows "\<exists>m'. fix_si_pnorm A m target = Returns m'
          \<and> length (named_parameters m') = length (named_parameters m)
          \<and> (\<forall>i < length (named_parameters m).
                fst (named_parameters m' ! i) = fst (named_parameters m ! i)
                \<and> grad (snd (named_parameters m' ! i)) = grad (snd (named_parameters m ! i))
                \<and> (\<not> is_si (fst (named_parameters m ! i)) \<longrightarrow>
                      named_parameters m' ! i = named_parameters m ! i))
          \<and> (norm_ops_ok u A m' \<longrightarrow>
                (\<exists>n'. get_si_params_norm A m' = NpFloat64 (Fin n') \<and> 0 \<le> n'
                   \<and> close u (2 * (length (si_entries m) + length (si_tensors m)) + 7) n' \<bar>target\<bar>
                   \<and> (0 \<le> target \<longrightarrow>
                         close u (2 * (length (si_entries m) + length (si_tensors m)) + 7) n' target)))"
proof -
  from norm have fin: "\<forall>x \<in> set (si_entries m). is_fin x"
    by (simp add: norm_ops_ok_def)
  from norm_after_fix_accurate [OF patched_accurate [OF u] fin nz, of A target]
  obtain m' n' where r:
      "fix_si_pnorm (patched u A) m target = Returns m'"
      "get_si_params_norm (patched u A) m' = NpFloat64 (Fin n')" "0 \<le> n'"
      "close u (2 * (length (si_entries m) + length (si_tensors m)) + 7) n' \<bar>target\<bar>"
      "0 \<le> target \<longrightarrow> close u (2 * (length (si_entries m) + length (si_tensors m)) + 7) n' target"
      "length (named_parameters m') = length (named_parameters m)"
      "\<forall>i < length (named_parameters m).
                fst (named_parameters m' ! i) = fst (named_parameters m ! i)
                \<and> grad (snd (named_parameters m' ! i)) = grad (snd (named_parameters m ! i))
                \<and> (\<not> is_si (fst (named_parameters m ! i)) \<longrightarrow>
                      named_parameters m' ! i = named_parameters m ! i)"
    by blast
  have ret: "fix_si_pnorm A m target = Returns m'"
    using fix_si_pnorm_patch [OF norm sc] r(1) by simp
  have after: "norm_ops_ok u A m' \<longrightarrow>
                (\<exists>n'. get_si_params_norm A m' = NpFloat64 (Fin n') \<and> 0 \<le> n'
                   \<and> close u (2 * (length (si_entries m) + length (si_tensors m)) + 7) n' \<bar>target\<bar>
                   \<and> (0 \<le> target \<longrightarrow>
                         close u (2 * (length (si_entries m) + length (si_tensors m)) + 7) n' target))"
  proof
    assume "norm_ops_ok u A m'"
    then have "get_si_params_norm A m' = NpFloat64 (Fin n')"
      using norm_patch r(2) by simp
    with r(3,4,5) show "\<exists>n'. get_si_params_norm A m' = NpFloat64 (Fin n') \<and> 0 \<le> n'
                   \<and> close u (2 * (length (si_entries m) + length (si_tensors m)) + 7) n' \<bar>target\<bar>
                   \<and> (0 \<le> target \<longrightarrow>
                         close u (2 * (length (si_entries m) + length (si_tensors m)) + 7) n' target)"
      by blast
  qed
  from ret r(6,7) after show ?thesis
    by (intro exI [of _ m'] conjI)
qed

lemma mixed_net_fixed:
  "fix_si_pnorm small_range_arith mixed_net 10
     = Returns (net_of [(''conv1.weight'', \<lparr>data = vec [Fin 6, Fin 8], grad = None\<rparr>),
                        (''fc.weight'', \<lparr>data = vec [Fin 2], grad = None\<rparr>)])"
  by (simp add: fix_si_pnorm_def small_range_arith_def small_range_def reduce_sum_def sq_sum_def
      si_tensors_def scale_def mixed_net_def net_of_def vec_def is_si_examples sqrt_25)

lemmas ops_defs = norm_ops_ok_def scale_ops_ok_def rounds_at_def sums_at_def close_def
  si_entries_def si_tensors_def get_si_params_norm_def reduce_sum_def sq_sum_def
  small_range_arith_def small_range_def net_of_def vec_def is_si_examples sqrt_25 sqrt_100

text \<open>
  C4 at a model with the SI entries 3 and 4 and another parameter, target 10 and
  \<open>u = 1/1000\<close>, in the arithmetic of small range: every operation of the run stays in the
  range, the other parameter is unchanged, and the norm of the model left is within
  \<open>(1001 / 1000) ^ 13\<close> of 10.
\<close>

theorem fix_si_pnorm_sets_norm_witness:
  "norm_ops_ok (1 / 1000) small_range_arith mixed_net
   \<and> true_norm mixed_net = 5
   \<and> scale_ops_ok (1 / 1000) small_range_arith mixed_net 10
   \<and> (\<exists>m' n'. fix_si_pnorm small_range_arith mixed_net 10 = Returns m'
          \<and> named_parameters m' ! 1 = (''fc.weight'', \<lparr>data = vec [Fin 2], grad = None\<rparr>)
          \<and> norm_ops_ok (1 / 1000) small_range_arith m'
          \<and> get_si_params_norm small_range_arith m' = NpFloat64 (Fin n')
          \<and> 10 \<le> (1001 / 1000) ^ 13 * n' \<and> n' \<le> (1001 / 1000) ^ 13 * 10)"
proof -
  let ?m' = "net_of [(''conv1.weight'', \<lparr>data = vec [Fin 6, Fin 8], grad = None\<rparr>),
                     (''fc.weight'', \<lparr>data = vec [Fin 2], grad = None\<rparr>)]"
  have u: "0 \<le> (1 / 1000 :: real)" by simp
  have ok: "norm_ops_ok (1 / 1000) small_range_arith mixed_net"
    by (simp add: ops_defs mixed_net_def)
  have nz: "true_norm mixed_net \<noteq> 0"
    by (simp add: mixed_net_norm)
  have sc: "scale_ops_ok (1 / 1000) small_range_arith mixed_net 10"
    by (simp add: ops_defs mixed_net_def)
  have ok': "norm_ops_ok (1 / 1000) small_range_arith ?m'"
    by (simp add: ops_defs)
  have sz: "length (si_entries mixed_net) = 2" "length (si_tensors mixed_net) = 1"
    by (simp_all add: mixed_net_entries) (simp_all add: si_tensors_def mixed_net_def net_of_def is_si_examples)
  from fix_si_pnorm_sets_norm [OF u ok nz sc] obtain m' where r:
      "fix_si_pnorm small_range_arith mixed_net 10 = Returns m'"
      "norm_ops_ok (1 / 1000) small_range_arith m' \<longrightarrow>
         (\<exists>n'. get_si_params_norm small_range_arith m' = NpFloat64 (Fin n') \<and> 0 \<le> n'
            \<and> close (1 / 1000) 13 n' \<bar>10\<bar> \<and> (0 \<le> (10 :: real) \<longrightarrow> close (1 / 1000) 13 n' 10))"
    unfolding sz by auto
  from r(1) have m': "m' = ?m'"
    by (simp add: mixed_net_fixed)
  from r(2) ok' obtain n' where n':
      "get_si_params_norm small_range_arith ?m' = NpFloat64 (Fin n')" "close (1 / 1000) 13 n' 10"
    unfolding m' by auto
  from n'(2) have "10 \<le> (1001 / 1000) ^ 13 * n' \<and> n' \<le> (1001 / 1000) ^ 13 * 10"
    by (simp add: close_def)
  moreover have "named_parameters ?m' ! 1 = (''fc.weight'', \<lparr>data = vec [Fin 2], grad = None\<rparr>)"
    by (simp add: net_of_def)
  ultimately show ?thesis
    using ok sc ok' n'(1) mixed_net_fixed mixed_net_norm by blast
qed


text \<open>
  In an arithmetic without overflow and underflow every operation of the two functions is
  carried out within the tolerance, for every model whose SI entries are finite.
\<close>

lemma rounds_within_at: "rounds_within u r \<Longrightarrow> rounds_at u r x"
  using rounds_withinD [of u r x] by (auto simp: rounds_at_def)

lemma sums_within_at:
  assumes "sums_within u f" and "\<forall>x \<in> set xs. is_fin x \<and> 0 \<le> real_of x"
  shows "sums_at u f xs"
proof (cases "xs = []")
  case True
  then show ?thesis by (simp add: sums_at_def)
next
  case False
  have eq: "xs = map Fin (map real_of xs)"
    using assms(2) by (induction xs) (simp_all add: Fin_real_of)
  have "map real_of xs \<noteq> [] \<and> (\<forall>x \<in> set (map real_of xs). 0 \<le> x)"
    using False assms(2) by simp
  with assms(1) obtain y where
      "f (map Fin (map real_of xs)) = Fin y" "0 \<le> y"
      "close u (length (map real_of xs)) y (sum_list (map real_of xs))"
    unfolding sums_within_def by blast
  then show ?thesis
    unfolding sums_at_def using eq by simp
qed

lemma accurate_norm_ops_ok:
  assumes acc: "accurate u A" and fin: "\<forall>x \<in> set (si_entries m). is_fin x"
  shows "norm_ops_ok u A m"
proof -
  from acc have u: "0 \<le> u" and rt: "rounds_within u (round_tensor A)"
      and rd: "rounds_within u (round_double A)"
      and ts: "sums_within u (tensor_sum A)" and ps: "sums_within u (py_sum A)"
    by (simp_all add: accurate_def)
  have sq: "\<forall>q \<in> set (map (\<lambda>x. fl_mul (round_tensor A) x x) (vals t)). is_fin q \<and> 0 \<le> real_of q"
    if "t \<in> set (si_tensors m)" for t
  proof -
    have "is_fin (fl_mul (round_tensor A) x x) \<and> 0 \<le> real_of (fl_mul (round_tensor A) x x)"
      if "x \<in> set (vals t)" for x
    proof -
      from that \<open>t \<in> set (si_tensors m)\<close> fin have "is_fin x"
        using si_tensor_entries by blast
      from square_within [OF u rt this] show ?thesis by auto
    qed
    then show ?thesis by simp
  qed
  have sums: "\<forall>s \<in> set (map (sq_sum A) (si_tensors m)). is_fin s \<and> 0 \<le> real_of s"
  proof -
    have "is_fin (sq_sum A t) \<and> 0 \<le> real_of (sq_sum A t)" if "t \<in> set (si_tensors m)" for t
    proof -
      from that fin have "\<forall>x \<in> set (vals t). is_fin x"
        using si_tensor_entries by blast
      from sq_sum_within [OF acc this] show ?thesis by auto
    qed
    then show ?thesis by simp
  qed
  show ?thesis
    unfolding norm_ops_ok_def
    using fin rounds_within_at [OF rt] rounds_within_at [OF rd]
      sums_within_at [OF ts sq] sums_within_at [OF ps sums]
    by blast
qed

lemma accurate_scale_ops_ok: "accurate u A \<Longrightarrow> scale_ops_ok u A m target"
  by (simp add: scale_ops_ok_def accurate_def rounds_within_at Let_def)

text \<open>
  C4, the claim as stated fails. With the exact arithmetic, SI entries 3 and 4 and target
  \<open>-10\<close>, the entries become \<open>-6\<close> and \<open>-8\<close> and the norm is 10, not \<open>-10\<close>. With the
  arithmetic of small range the norm is not near the target either: for the single SI
  entry 11 and target 5 the square overflows, the computed norm is infinite, the
  coefficient is 0 and the norm of the model left is 0; for the single SI entry
  \<open>1 / 20\<close> and target 5 the square underflows to 0, the coefficient is infinite and
  the norm of the model left is infinite.
\<close>

theorem fix_si_pnorm_misses_target:
  "fix_si_pnorm exact_arith (net_of [(''conv1.weight'', \<lparr>data = vec [Fin 3, Fin 4], grad = None\<rparr>)]) (- 10)
     = Returns (net_of [(''conv1.weight'', \<lparr>data = vec [Fin (- 6), Fin (- 8)], grad = None\<rparr>)])
   \<and> get_si_params_norm exact_arith
        (net_of [(''conv1.weight'', \<lparr>data = vec [Fin (- 6), Fin (- 8)], grad = None\<rparr>)])
     = NpFloat64 (Fin 10)
   \<and> fix_si_pnorm small_range_arith (net_of [(''conv1.weight'', \<lparr>data = vec [Fin 11], grad = None\<rparr>)]) 5
     = Returns (net_of [(''conv1.weight'', \<lparr>data = vec [Fin 0], grad = None\<rparr>)])
   \<and> get_si_params_norm small_range_arith
        (net_of [(''conv1.weight'', \<lparr>data = vec [Fin 0], grad = None\<rparr>)])
     = NpFloat64 (Fin 0)
   \<and> fix_si_pnorm small_range_arith (net_of [(''conv1.weight'', \<lparr>data = vec [Fin (1 / 20)], grad = None\<rparr>)]) 5
     = Returns (net_of [(''conv1.weight'', \<lparr>data = vec [PInf], grad = None\<rparr>)])
   \<and> get_si_params_norm small_range_arith
        (net_of [(''conv1.weight'', \<lparr>data = vec [PInf], grad = None\<rparr>)])
     = NpFloat64 PInf"
  by (simp add: exact_defs small_range_arith_def small_range_def is_si_examples sqrt_25 sqrt_100)

section \<open>Properties of moving_average\<close>

lemma map2_map_map: "map2 f (map g xs) (map h ys) = map2 (\<lambda>x y. f (g x) (h y)) xs ys"
  by (induction xs arbitrary: ys) (simp, case_tac ys, simp_all)





lemma mix_exact:
  "length xs = length ys \<Longrightarrow>
   mix exact_arith alpha (vec (map Fin xs)) (vec (map Fin ys))
     = vec (map2 (\<lambda>x y. Fin (x * (1 - alpha) + y * alpha)) xs ys)"
  by (simp add: mix_def vec_def exact_arith_def map2_map_map)





end
